theory Spec2Isabelle
  imports Main "HOL-Library.Word" "HOL-Library.Monad_Syntax"
begin

section \<open>Memory model shared by the TLV module and the UDP transport\<close>

text \<open>
  Pointers are natural numbers and the null pointer is \<open>0\<close>. A C function whose
  execution would be undefined (a null or dangling dereference, a read past the end of
  a buffer) is \<open>None\<close> in the model; every defined execution is \<open>Some\<close> of its
  result and the state it leaves. The model is sequential: mutexes and condition
  variables are not represented.
\<close>

type_synonym byte = "8 word"

abbreviation NULL :: nat where
  "NULL \<equiv> 0"

text \<open>
  \<open>malloc\<close> can fail at any call. The allocator carries the outcomes of the calls
  to come (\<open>alloc_ok\<close>, one entry per call; once exhausted, memory is exhausted) and a
  break \<open>brk\<close> above every address handed out so far. A successful call returns a
  non-null address that was never returned before.
\<close>

record alloc =
  alloc_ok :: "bool list"
  brk :: nat

definition malloc :: "'a alloc_scheme \<Rightarrow> nat \<times> 'a alloc_scheme" where
  "malloc h =
     (case alloc_ok h of
        [] \<Rightarrow> (NULL, h)
      | ok # rest \<Rightarrow>
          if ok then (Suc (brk h), h\<lparr>alloc_ok := rest, brk := Suc (brk h)\<rparr>)
          else (NULL, h\<lparr>alloc_ok := rest\<rparr>))"

text \<open>\<open>memcpy(dst, src, n)\<close>: the \<open>n\<close> bytes written; reading past \<open>src\<close> is undefined.\<close>

definition memcpy :: "byte list \<Rightarrow> nat \<Rightarrow> byte list option" where
  "memcpy src n = (if n \<le> length src then Some (take n src) else None)"

text \<open>Byte-wise comparison of two equally long byte strings, with the sign of \<open>memcmp\<close>.\<close>

fun bytes_cmp :: "byte list \<Rightarrow> byte list \<Rightarrow> int" where
  "bytes_cmp (x # xs) (y # ys) =
     (if x < y then - 1 else if y < x then 1 else bytes_cmp xs ys)"
| "bytes_cmp _ _ = 0"

text \<open>
  \<open>memcmp(a, b, n)\<close> on two buffers given with their extent (\<open>None\<close> is the null
  pointer). With \<open>n = 0\<close> no byte is read and the result is 0, whatever the pointers
  are; with \<open>n > 0\<close> both buffers must hold at least \<open>n\<close> bytes.
\<close>

definition memcmp :: "byte list option \<Rightarrow> byte list option \<Rightarrow> nat \<Rightarrow> int option" where
  "memcmp a b n =
     (if n = 0 then Some 0
      else case (a, b) of
             (Some xs, Some ys) \<Rightarrow>
               if n \<le> length xs \<and> n \<le> length ys
               then Some (bytes_cmp (take n xs) (take n ys)) else None
           | _ \<Rightarrow> None)"

section \<open>The TLV module\<close>

text \<open>
  \<open>struct tlv { uint8_t t; uint8_t l; uint8_t *v; }\<close>. The fields are named
  \<open>tlv_t\<close>, \<open>tlv_l\<close>, \<open>tlv_v\<close>. The value buffer is owned by its TLV alone (no
  function of the module shares one), so it is kept inside the record: \<open>None\<close> is a
  null \<open>v\<close>, \<open>Some bs\<close> a buffer of \<open>length bs\<close> bytes.
\<close>

record tlv =
  tlv_t :: byte
  tlv_l :: byte
  tlv_v :: "byte list option"

record tlv_heap = alloc +
  tlvs :: "nat \<rightharpoonup> tlv"

definition deref :: "tlv_heap \<Rightarrow> nat \<Rightarrow> tlv option" where
  "deref h p = (if p = NULL then None else tlvs h p)"

text \<open>
  \<open>maketlv\<close>: the first \<open>malloc\<close> is the struct, the second the value buffer. The
  struct enters \<open>tlvs\<close> when the function returns it; on the failure of the second
  \<open>malloc\<close> it is freed again, so it never does.
\<close>

definition maketlv :: "byte \<Rightarrow> byte \<Rightarrow> byte list option \<Rightarrow> tlv_heap \<Rightarrow> (nat \<times> tlv_heap) option" where
  "maketlv t l v h =
     (case malloc h of
        (p, h1) \<Rightarrow>
          if p = NULL then Some (NULL, h1)
          else if l \<noteq> 0 \<and> v \<noteq> None then
            (case malloc h1 of
               (q, h2) \<Rightarrow>
                 if q = NULL then Some (NULL, h2)
                 else do {
                   bs \<leftarrow> memcpy (the v) (unat l);
                   Some (p, h2\<lparr>tlvs := (tlvs h2)(p \<mapsto> \<lparr>tlv_t = t, tlv_l = l, tlv_v = Some bs\<rparr>)\<rparr>)
                 })
          else Some (p, h1\<lparr>tlvs := (tlvs h1)(p \<mapsto> \<lparr>tlv_t = t, tlv_l = l, tlv_v = None\<rparr>)\<rparr>))"

definition copytlv :: "nat \<Rightarrow> tlv_heap \<Rightarrow> (nat \<times> tlv_heap) option" where
  "copytlv inp h =
     (if inp \<noteq> NULL then do {
        x \<leftarrow> deref h inp;
        maketlv (tlv_t x) (tlv_l x) (tlv_v x) h
      } else Some (NULL, h))"

definition freetlv :: "nat \<Rightarrow> tlv_heap \<Rightarrow> tlv_heap option" where
  "freetlv p h =
     (if p \<noteq> NULL then do {
        x \<leftarrow> deref h p;
        Some (h\<lparr>tlvs := (tlvs h)(p := None)\<rparr>)
      } else Some h)"

definition eqtlv :: "tlv_heap \<Rightarrow> nat \<Rightarrow> nat \<Rightarrow> bool option" where
  "eqtlv h t1 t2 =
     (if t1 = NULL \<or> t2 = NULL then Some (t1 = t2)
      else do {
        a \<leftarrow> deref h t1;
        b \<leftarrow> deref h t2;
        if tlv_t a \<noteq> tlv_t b \<or> tlv_l a \<noteq> tlv_l b then Some False
        else do {
          r \<leftarrow> memcmp (tlv_v a) (tlv_v b) (unat (tlv_l a));
          Some (r = 0)
        }
      })"

subsection \<open>The generic list\<close>

text \<open>
  Modelled from the spec: \<open>list.c\<close> (\<open>list_create\<close>, \<open>list_push\<close>, \<open>list_shift\<close>,
  \<open>list_removedata\<close>, \<open>list_destroy\<close>) is not among the sources. The spec's list is an
  ordered sequence that keeps order and allows duplicates; a list is the sequence of
  the \<open>data\<close> pointers of its nodes, first node first. \<open>list_create\<close> and
  \<open>list_push\<close> allocate (the header, a node) and fail only when that allocation fails,
  which is how their callers in \<open>udp.c\<close> report a zero result ("malloc failed");
  \<open>list_push\<close> appends at the tail and stores the pointer it is given, null or not.
  \<open>list_shift\<close> unlinks the first node and returns its data, null for an empty list.
  \<open>list_removedata\<close> unlinks the nodes whose data is the given pointer.
  \<open>list_destroy\<close> releases the nodes, what their data points to, and the header.
\<close>

definition list_create :: "'a alloc_scheme \<Rightarrow> nat list option \<times> 'a alloc_scheme" where
  "list_create h = (case malloc h of (p, h1) \<Rightarrow> (if p = NULL then None else Some [], h1))"

definition list_push :: "nat list \<Rightarrow> nat \<Rightarrow> 'a alloc_scheme \<Rightarrow> bool \<times> nat list \<times> 'a alloc_scheme" where
  "list_push xs d h =
     (case malloc h of (p, h1) \<Rightarrow> if p = NULL then (False, xs, h1) else (True, xs @ [d], h1))"

definition list_shift :: "nat list \<Rightarrow> nat \<times> nat list" where
  "list_shift xs = (case xs of [] \<Rightarrow> (NULL, []) | d # ds \<Rightarrow> (d, ds))"

definition list_removedata :: "nat list \<Rightarrow> nat \<Rightarrow> nat list" where
  "list_removedata xs d = filter (\<lambda>x. x \<noteq> d) xs"

definition list_destroy :: "nat list \<Rightarrow> tlv_heap \<Rightarrow> tlv_heap" where
  "list_destroy xs h = h\<lparr>tlvs := fold (\<lambda>d m. m(d := None)) xs (tlvs h)\<rparr>"

subsection \<open>TLV lists\<close>

text \<open>
  \<open>freetlvlist\<close>: \<open>while ((tlv = list_shift(tlvs))) freetlv(tlv);\<close> stops at the
  first null data pointer as it does at the end of the list; \<open>list_destroy\<close> gets what
  is left.
\<close>

fun freetlvlist :: "nat list \<Rightarrow> tlv_heap \<Rightarrow> tlv_heap option" where
  "freetlvlist [] h = Some (list_destroy [] h)"
| "freetlvlist (d # ds) h =
     (if d \<noteq> NULL then do { h1 \<leftarrow> freetlv d h; freetlvlist ds h1 }
      else Some (list_destroy ds h))"

text \<open>
  The loop of \<open>copytlvlist\<close> over the nodes of \<open>tlvs\<close> still to copy; \<open>out\<close> is the
  list built so far. The result of \<open>copytlv\<close> goes to \<open>list_push\<close> unexamined.
\<close>

fun copytlvlist_loop :: "nat list \<Rightarrow> nat list \<Rightarrow> tlv_heap \<Rightarrow> (nat list option \<times> tlv_heap) option" where
  "copytlvlist_loop [] out h = Some (Some out, h)"
| "copytlvlist_loop (d # nodes) out h = do {
     (c, h1) \<leftarrow> copytlv d h;
     case list_push out c h1 of
       (ok, out', h2) \<Rightarrow>
         if \<not> ok then do { h3 \<leftarrow> freetlvlist out' h2; Some (None, h3) }
         else copytlvlist_loop nodes out' h2
   }"

definition copytlvlist :: "nat list option \<Rightarrow> tlv_heap \<Rightarrow> (nat list option \<times> tlv_heap) option" where
  "copytlvlist tlvs_in h =
     (case tlvs_in of
        None \<Rightarrow> Some (None, h)
      | Some nodes \<Rightarrow>
          (case list_create h of
             (None, h1) \<Rightarrow> Some (None, h1)
           | (Some out, h1) \<Rightarrow> copytlvlist_loop nodes out h1))"

text \<open>
  The loop of \<open>rmtlv\<close>. The list is \<open>kept @ rest\<close>: \<open>kept\<close> are the nodes up to and
  including \<open>p\<close> (empty while \<open>p\<close> is null), \<open>rest\<close> starts at \<open>n\<close>. After
  \<open>list_removedata\<close> on the whole list, \<open>n\<close> restarts behind \<open>p\<close>, or at the first
  node when \<open>p\<close> is null.
\<close>

function rmtlv_loop :: "byte \<Rightarrow> nat list \<Rightarrow> nat list \<Rightarrow> tlv_heap \<Rightarrow> (nat list \<times> tlv_heap) option" where
  "rmtlv_loop t kept [] h = Some (kept, h)"
| "rmtlv_loop t kept (n # rest) h = do {
     x \<leftarrow> deref h n;
     if tlv_t x = t then do {
       h1 \<leftarrow> freetlv n h;
       rmtlv_loop t (list_removedata kept n) (list_removedata rest n) h1
     } else rmtlv_loop t (kept @ [n]) rest h
   }"
  by pat_completeness auto
termination
  by (relation "measure (\<lambda>(t, kept, rest, h). length rest)")
     (auto simp: list_removedata_def less_Suc_eq_le)

definition rmtlv :: "nat list \<Rightarrow> byte \<Rightarrow> tlv_heap \<Rightarrow> (nat list \<times> tlv_heap) option" where
  "rmtlv xs t h = rmtlv_loop t [] xs h"

text \<open>
  The TLV invariant of the data model: the value is absent when \<open>l = 0\<close>, and holds
  exactly \<open>l\<close> bytes otherwise.
\<close>

definition tlv_inv :: "tlv \<Rightarrow> bool" where
  "tlv_inv x =
     (if tlv_l x = 0 then tlv_v x = None
      else case tlv_v x of None \<Rightarrow> False | Some bs \<Rightarrow> length bs = unat (tlv_l x))"


text \<open>The next \<open>n\<close> calls of \<open>malloc\<close> succeed.\<close>

definition allocs_ok :: "nat \<Rightarrow> 'a alloc_scheme \<Rightarrow> bool" where
  "allocs_ok n h = (take n (alloc_ok h) = replicate n True)"

text \<open>The TLV behind the pointer a call returned, in the heap it left.\<close>

definition tlv_at :: "(nat \<times> tlv_heap) option \<Rightarrow> tlv option" where
  "tlv_at r = (case r of None \<Rightarrow> None | Some (p, h) \<Rightarrow> deref h p)"

section \<open>Socket addresses\<close>

text \<open>
  \<open>struct sockaddr { sa_family_t sa_family; char sa_data[]; }\<close>: the family, and the
  bytes of the object behind the family field. The casts of \<open>addr_equal\<close> read fields
  at fixed places of these bytes, whatever the family of the object is:
  \<open>sockaddr_in\<close> has \<open>sin_port\<close> in bytes 0-1 and \<open>sin_addr\<close> in bytes 2-5 (then 8
  bytes of padding); \<open>sockaddr_in6\<close> has \<open>sin6_port\<close> in bytes 0-1,
  \<open>sin6_flowinfo\<close> in bytes 2-5, \<open>sin6_addr\<close> in bytes 6-21 and \<open>sin6_scope_id\<close>
  in bytes 22-25. A read past the end of the object is undefined.
\<close>

datatype sa_family = AF_UNSPEC | AF_INET | AF_INET6 | AF_OTHER nat

record sockaddr =
  sa_family :: sa_family
  sa_data :: "byte list"

definition sa_field :: "sockaddr \<Rightarrow> nat \<Rightarrow> nat \<Rightarrow> byte list option" where
  "sa_field a off n =
     (if off + n \<le> length (sa_data a) then Some (take n (drop off (sa_data a))) else None)"

definition sin_port :: "sockaddr \<Rightarrow> byte list option" where
  "sin_port a = sa_field a 0 2"

definition sin_addr :: "sockaddr \<Rightarrow> byte list option" where
  "sin_addr a = sa_field a 2 4"

definition sin6_port :: "sockaddr \<Rightarrow> byte list option" where
  "sin6_port a = sa_field a 0 2"

definition sin6_addr :: "sockaddr \<Rightarrow> byte list option" where
  "sin6_addr a = sa_field a 6 16"

definition IN6_ARE_ADDR_EQUAL :: "byte list \<Rightarrow> byte list \<Rightarrow> bool" where
  "IN6_ARE_ADDR_EQUAL x y = (x = y)"

text \<open>\<open>addr_equal\<close>: the switch is on the family of \<open>a\<close>; \<open>&&\<close> reads the ports only
  when the addresses compared equal.\<close>

definition addr_equal :: "sockaddr \<Rightarrow> sockaddr \<Rightarrow> bool option" where
  "addr_equal a b =
     (case sa_family a of
        AF_INET \<Rightarrow> do {
          x \<leftarrow> sin_addr a;
          y \<leftarrow> sin_addr b;
          r \<leftarrow> memcmp (Some x) (Some y) 4;
          if r = 0 then do {
            pa \<leftarrow> sin_port a;
            pb \<leftarrow> sin_port b;
            Some (pa = pb)
          } else Some False
        }
      | AF_INET6 \<Rightarrow> do {
          x \<leftarrow> sin6_addr a;
          y \<leftarrow> sin6_addr b;
          if IN6_ARE_ADDR_EQUAL x y then do {
            pa \<leftarrow> sin6_port a;
            pb \<leftarrow> sin6_port b;
            Some (pa = pb)
          } else Some False
        }
      | _ \<Rightarrow> Some False)"

text \<open>
  A socket address of one of the two families the function handles, in an object at
  least as large as the family's structure (a \<open>sockaddr_storage\<close> is larger); its
  address bytes and its port bytes.
\<close>

definition sockaddr_ok :: "sockaddr \<Rightarrow> bool" where
  "sockaddr_ok a =
     (case sa_family a of
        AF_INET \<Rightarrow> 14 \<le> length (sa_data a)
      | AF_INET6 \<Rightarrow> 26 \<le> length (sa_data a)
      | _ \<Rightarrow> False)"

definition addr_bytes :: "sockaddr \<Rightarrow> byte list" where
  "addr_bytes a =
     (case sa_family a of
        AF_INET \<Rightarrow> take 4 (drop 2 (sa_data a))
      | AF_INET6 \<Rightarrow> take 16 (drop 6 (sa_data a))
      | _ \<Rightarrow> [])"

definition port_bytes :: "sockaddr \<Rightarrow> byte list" where
  "port_bytes a = take 2 (sa_data a)"


section \<open>The UDP transport\<close>

subsection \<open>Clients, requests, peer configurations\<close>

text \<open>
  Modelled from the spec: \<open>radsecproxy.h\<close>, which declares \<open>struct client\<close>,
  \<open>struct request\<close>, \<open>struct gqueue\<close> and \<open>struct clsrvconf\<close>, is not among the
  sources. The records hold the fields \<open>udp.c\<close> reads and writes, which are the
  fields of the spec's Client, Request, ReplyQueue and peer configuration; \<open>conf\<close> is
  the configuration a client belongs to. The \<open>from\<close> field of a request is named
  \<open>rq_from\<close>. A client's address is kept inside the record (\<open>None\<close> is a null
  \<open>addr\<close>); every other pointer is an address into the map of its type.
\<close>

record client =
  sock :: int
  addr :: "sockaddr option"
  expiry :: int
  replyq :: nat
  conf :: nat

record request =
  rq_from :: nat
  buf :: nat
  buflen :: int
  udpsock :: int
  created :: int
  replybuf :: nat
  replybuflen :: int
  refcount :: int

record gqueue =
  entries :: "nat list"

record clsrvconf =
  clients :: "nat list"
  servers :: nat

text \<open>
  The memory of the process: the live objects by address, the global
  \<open>server_replyq\<close>, and the clock (\<open>clock w n\<close> is what the \<open>n\<close>-th call of
  \<open>gettimeofday\<close> reads in \<open>tv_sec\<close>; \<open>ticks\<close> counts the calls made).
\<close>

record world = alloc +
  clientheap :: "nat \<rightharpoonup> client"
  confs :: "nat \<rightharpoonup> clsrvconf"
  requests :: "nat \<rightharpoonup> request"
  queues :: "nat \<rightharpoonup> gqueue"
  bufs :: "nat \<rightharpoonup> byte list"
  server_replyq :: nat
  clock :: "nat \<Rightarrow> int"
  ticks :: nat

definition client_at :: "world \<Rightarrow> nat \<Rightarrow> client option" where
  "client_at w c = (if c = NULL then None else clientheap w c)"

definition conf_at :: "world \<Rightarrow> nat \<Rightarrow> clsrvconf option" where
  "conf_at w p = (if p = NULL then None else confs w p)"

definition request_at :: "world \<Rightarrow> nat \<Rightarrow> request option" where
  "request_at w r = (if r = NULL then None else requests w r)"

definition queue_at :: "world \<Rightarrow> nat \<Rightarrow> gqueue option" where
  "queue_at w q = (if q = NULL then None else queues w q)"

definition gettimeofday :: "world \<Rightarrow> int \<times> world" where
  "gettimeofday w = (clock w (ticks w), w\<lparr>ticks := Suc (ticks w)\<rparr>)"

subsection \<open>Scrubbing the reply queue\<close>

text \<open>The loop of \<open>removeudpclientfromreplyq\<close> over the nodes of the queue.\<close>

fun removeudpclientfromreplyq_loop :: "nat list \<Rightarrow> nat \<Rightarrow> world \<Rightarrow> world option" where
  "removeudpclientfromreplyq_loop [] c w = Some w"
| "removeudpclientfromreplyq_loop (n # ns) c w = do {
     r \<leftarrow> request_at w n;
     removeudpclientfromreplyq_loop ns c
       (if rq_from r = c then w\<lparr>requests := (requests w)(n \<mapsto> r\<lparr>rq_from := NULL\<rparr>)\<rparr> else w)
   }"

definition removeudpclientfromreplyq :: "nat \<Rightarrow> world \<Rightarrow> world option" where
  "removeudpclientfromreplyq c w = do {
     cl \<leftarrow> client_at w c;
     q \<leftarrow> queue_at w (replyq cl);
     removeudpclientfromreplyq_loop (entries q) c w
   }"

subsection \<open>Client records\<close>

text \<open>
  Modelled from the spec: \<open>addclient\<close>, \<open>removelockedclient\<close> and \<open>addr_copy\<close> are
  external collaborators, not among the sources. \<open>addclient(conf, 0)\<close> allocates a
  zeroed client and a node for it at the tail of the configuration's client list,
  sets its \<open>conf\<close> and runs the protocol's \<open>addclient\<close> hook, which is
  \<open>addclientudp\<close> of \<open>udp.c\<close>: \<open>client->replyq = server_replyq\<close>; it returns null
  when an allocation fails. \<open>removelockedclient\<close> takes the client out of the client
  list of its configuration and frees it. \<open>addr_copy\<close> returns a fresh copy of the
  address, or null when the allocation fails.
\<close>

definition addclientudp :: "client \<Rightarrow> world \<Rightarrow> client" where
  "addclientudp cl w = cl\<lparr>replyq := server_replyq w\<rparr>"

definition addclient :: "nat \<Rightarrow> world \<Rightarrow> (nat \<times> world) option" where
  "addclient p w = do {
     cf \<leftarrow> conf_at w p;
     case malloc w of
       (new, w1) \<Rightarrow>
         if new = NULL then Some (NULL, w1)
         else (case list_push (clients cf) new w1 of
                 (ok, cs, w2) \<Rightarrow>
                   if \<not> ok then Some (NULL, w2)
                   else Some (new,
                     w2\<lparr>confs := (confs w2)(p \<mapsto> cf\<lparr>clients := cs\<rparr>),
                        clientheap := (clientheap w2)(new \<mapsto>
                          addclientudp \<lparr>sock = 0, addr = None, expiry = 0, replyq = NULL, conf = p\<rparr> w2)\<rparr>))
   }"

definition removelockedclient :: "nat \<Rightarrow> world \<Rightarrow> world option" where
  "removelockedclient c w = do {
     cl \<leftarrow> client_at w c;
     cf \<leftarrow> conf_at w (conf cl);
     Some (w\<lparr>confs := (confs w)(conf cl \<mapsto> cf\<lparr>clients := list_removedata (clients cf) c\<rparr>),
             clientheap := (clientheap w)(c := None)\<rparr>)
   }"

definition addr_copy :: "sockaddr \<Rightarrow> world \<Rightarrow> sockaddr option \<times> world" where
  "addr_copy a w = (case malloc w of (p, w1) \<Rightarrow> (if p = NULL then None else Some a, w1))"

text \<open>
  The pass of \<open>radudpget\<close> over the client list (lines 207-225). \<open>nodes\<close> are the
  nodes from \<open>node\<close> on, \<open>found\<close> is \<open>*client\<close>. The pass ends at the end of the list
  or at the \<open>break\<close> that follows the removal of a client.
\<close>

fun client_pass :: "int \<Rightarrow> sockaddr \<Rightarrow> nat list \<Rightarrow> nat \<Rightarrow> world \<Rightarrow> (nat \<times> world) option" where
  "client_pass s src [] found w = Some (found, w)"
| "client_pass s src (c # nodes) found w = do {
     cl \<leftarrow> client_at w c;
     if s \<noteq> sock cl then client_pass s src nodes found w
     else (case gettimeofday w of
       (now, w1) \<Rightarrow> do {
         hit \<leftarrow> (if found = NULL then do { a \<leftarrow> addr cl; addr_equal src a } else Some False);
         let cl1 = (if hit then cl\<lparr>expiry := now + 60\<rparr> else cl);
             found1 = (if hit then c else found);
             w2 = w1\<lparr>clientheap := (clientheap w1)(c \<mapsto> cl1)\<rparr>
         in if expiry cl1 \<ge> now then client_pass s src nodes found1 w2
            else do {
              w3 \<leftarrow> removeudpclientfromreplyq c w2;
              w4 \<leftarrow> removelockedclient c
                     (w3\<lparr>clientheap := (clientheap w3)(c \<mapsto> cl1\<lparr>replyq := NULL\<rparr>)\<rparr>);
              Some (found1, w4)
            }
       })
   }"


subsection \<open>The socket\<close>

text \<open>
  The network side of the process: the datagrams queued on each socket (source address
  and payload, oldest first) and the outcomes of the receive calls to come (\<open>True\<close>:
  the call fails with -1 and changes nothing; once exhausted, calls do not fail). Only
  \<open>radudpget\<close> takes datagrams off a socket; a receive call on an empty queue blocks.
\<close>

record net =
  sockq :: "int \<Rightarrow> (sockaddr \<times> byte list) list"
  ioerrs :: "bool list"

datatype recv_result = RecvErr | RecvBlock | RecvOk int "byte list" sockaddr

text \<open>
  \<open>recvfrom\<close>/\<open>recv\<close> of at most \<open>n\<close> bytes on socket \<open>s\<close>: with \<open>peek\<close>
  (\<open>MSG_PEEK\<close>) the datagram stays queued, otherwise the whole datagram is taken off
  the queue; with \<open>trunc\<close> (\<open>MSG_TRUNC\<close>) the count returned is the length of the
  datagram, not of what was copied. \<open>RecvOk cnt bs src\<close>: the count, the bytes copied
  to the buffer, the source address.
\<close>

definition recv_dgram :: "bool \<Rightarrow> bool \<Rightarrow> int \<Rightarrow> nat \<Rightarrow> net \<Rightarrow> recv_result \<times> net" where
  "recv_dgram peek trunc s n nt =
     (case ioerrs nt of
        True # es \<Rightarrow> (RecvErr, nt\<lparr>ioerrs := es\<rparr>)
      | _ \<Rightarrow>
          (case sockq nt s of
             [] \<Rightarrow> (RecvBlock, nt\<lparr>ioerrs := tl (ioerrs nt)\<rparr>)
           | (src, payload) # rest \<Rightarrow>
               (RecvOk (if trunc then int (length payload) else int (min n (length payload)))
                  (take n payload) src,
                if peek then nt\<lparr>ioerrs := tl (ioerrs nt)\<rparr>
                else nt\<lparr>ioerrs := tl (ioerrs nt), sockq := (sockq nt)(s := rest)\<rparr>)))"

text \<open>The contents of an array after \<open>bs\<close> was written to its start.\<close>

definition store_bytes :: "byte list \<Rightarrow> byte list \<Rightarrow> byte list" where
  "store_bytes bs old = bs @ drop (length bs) old"

text \<open>
  \<open>free(b)\<close> of a buffer, for \<open>b\<close> not null: defined when \<open>b\<close> is a live buffer, which
  it ends; for every other pointer (one already freed, one never set) the behaviour
  is undefined.
\<close>

definition free_buf :: "nat \<Rightarrow> world \<Rightarrow> world option" where
  "free_buf b w =
     (if bufs w b = None then None else Some (w\<lparr>bufs := (bufs w)(b := None)\<rparr>))"

subsection \<open>radudpget\<close>

text \<open>
  The collaborators \<open>radudpget\<close> calls and the sources do not hold are parameters:
  \<open>get_checked_rad_length\<close> on the four bytes of \<open>init_buf\<close>, and the two
  configuration lookups on the source address (a null result: no configuration).
\<close>

record env =
  get_checked_rad_length :: "byte list \<Rightarrow> int"
  find_clconf :: "sockaddr \<Rightarrow> nat"
  find_srvconf :: "sockaddr \<Rightarrow> nat"

text \<open>
  One turn of the \<open>for (;;)\<close> loop up to line 202. \<open>FContinue b i nt w\<close> is a
  \<open>continue\<close> with \<open>*buf = b\<close> and \<open>init_buf = i\<close>; \<open>FAccept len b src p i nt w\<close> goes
  on to line 204 with the datagram of length field \<open>len\<close> in the buffer \<open>b\<close>, from
  \<open>src\<close>, for the configuration \<open>p\<close>; \<open>FBlock\<close> is a receive call that does not
  return. The contents kept for a buffer are the bytes written to it. The turn
  starts with \<open>free(*buf)\<close> when \<open>*buf\<close> is not null (lines 151-154): there is no
  result when \<open>*buf\<close> is not a live buffer.
\<close>

datatype frame_result =
  FBlock net world
| FContinue nat "byte list" net world
| FAccept int nat sockaddr nat "byte list" net world

text \<open>\<open>recv(s, init_buf, 4, 0)\<close>, then \<open>continue\<close>.\<close>

definition drain :: "int \<Rightarrow> nat \<Rightarrow> byte list \<Rightarrow> net \<Rightarrow> world \<Rightarrow> frame_result" where
  "drain s b init nt w =
     (case recv_dgram False False s 4 nt of
        (RecvBlock, nt1) \<Rightarrow> FBlock nt1 w
      | (RecvErr, nt1) \<Rightarrow> FContinue b init nt1 w
      | (RecvOk cnt bs src, nt1) \<Rightarrow> FContinue b (store_bytes bs init) nt1 w)"

definition radudpget_frame :: "env \<Rightarrow> int \<Rightarrow> bool \<Rightarrow> nat \<Rightarrow> byte list \<Rightarrow> net \<Rightarrow> world \<Rightarrow> frame_result option" where
  "radudpget_frame E s want_client b0 init nt w = do {
     w0 \<leftarrow> (if b0 \<noteq> NULL then free_buf b0 w else Some w);
     Some (case recv_dgram True True s 4 nt of
        (RecvBlock, nt1) \<Rightarrow> FBlock nt1 w0
      | (RecvErr, nt1) \<Rightarrow> FContinue NULL init nt1 w0
      | (RecvOk cnt hdr src, nt1) \<Rightarrow>
          let init1 = store_bytes hdr init;
              p = (if want_client then find_clconf E src else find_srvconf E src)
          in if p = NULL then drain s NULL init1 nt1 w0
             else let len = get_checked_rad_length E init1
               in if len \<le> 0 then drain s NULL init1 nt1 w0
                  else if len > 4096 then drain s NULL init1 nt1 w0
                  else (case malloc w0 of
                    (b, w1) \<Rightarrow>
                      if b = NULL then drain s NULL init1 nt1 w1
                      else (case recv_dgram False True s (nat len) nt1 of
                         (RecvBlock, nt2) \<Rightarrow> FBlock nt2 w1
                       | (RecvErr, nt2) \<Rightarrow>
                           FContinue b init1 nt2 (w1\<lparr>bufs := (bufs w1)(b \<mapsto> [])\<rparr>)
                       | (RecvOk cnt2 bs src2, nt2) \<Rightarrow>
                           let w2 = w1\<lparr>bufs := (bufs w1)(b \<mapsto> bs)\<rparr>
                           in if cnt2 < len then FContinue b init1 nt2 w2
                              else FAccept len b src p init1 nt2 w2)))
   }"

text \<open>
  Lines 204-247: the identification of the peer. \<open>PBreak c sv w\<close> leaves the loop
  with \<open>*client = c\<close> or \<open>*server = sv\<close>; \<open>PContinue\<close> is one of the two \<open>continue\<close>s
  of lines 230 and 236.
\<close>

datatype peer_result = PContinue world | PBreak nat nat world

text \<open>The block of lines 226-243, entered when the pass left \<open>*client\<close> null.\<close>

definition radudpget_newclient :: "int \<Rightarrow> sockaddr \<Rightarrow> nat \<Rightarrow> world \<Rightarrow> peer_result option" where
  "radudpget_newclient s src p w =
     (case addr_copy src w of
        (fromcopy, w2) \<Rightarrow>
          if fromcopy = None then Some (PContinue w2)
          else do {
            (c, w3) \<leftarrow> addclient p w2;
            if c = NULL then Some (PContinue w3)
            else do {
              cl \<leftarrow> client_at w3 c;
              case gettimeofday w3 of
                (now, w4) \<Rightarrow>
                  Some (PBreak c NULL
                    (w4\<lparr>clientheap := (clientheap w4)(c \<mapsto>
                       cl\<lparr>sock := s, addr := fromcopy, expiry := now + 60\<rparr>)\<rparr>))
            }
          })"

definition radudpget_peer :: "int \<Rightarrow> bool \<Rightarrow> bool \<Rightarrow> sockaddr \<Rightarrow> nat \<Rightarrow> world \<Rightarrow> peer_result option" where
  "radudpget_peer s want_client want_server src p w =
     (if want_client then do {
        cf \<leftarrow> conf_at w p;
        (found, w1) \<leftarrow> client_pass s src (clients cf) NULL w;
        if found = NULL then radudpget_newclient s src p w1
        else Some (PBreak found NULL w1)
      } else if want_server then do {
        cf \<leftarrow> conf_at w p;
        Some (PBreak NULL (servers cf) w)
      } else Some (PBreak NULL NULL w))"

text \<open>
  The loop. \<open>Returned len c sv b nt w\<close>: the function returns \<open>len\<close> with
  \<open>*client = c\<close>, \<open>*server = sv\<close> and \<open>*buf = b\<close>; \<open>Blocked\<close>: it waits in a receive
  call for a datagram that the model does not have.
\<close>

datatype rget = Returned int nat nat nat net world | Blocked net world

function radudpget_loop :: "env \<Rightarrow> int \<Rightarrow> bool \<Rightarrow> bool \<Rightarrow> nat \<Rightarrow> byte list \<Rightarrow> net \<Rightarrow> world \<Rightarrow> rget option" where
  "radudpget_loop E s want_client want_server b init nt w =
     (case radudpget_frame E s want_client b init nt w of
        None \<Rightarrow> None
      | Some (FBlock nt1 w1) \<Rightarrow> Some (Blocked nt1 w1)
      | Some (FContinue b1 init1 nt1 w1) \<Rightarrow>
          radudpget_loop E s want_client want_server b1 init1 nt1 w1
      | Some (FAccept len b1 src p init1 nt1 w1) \<Rightarrow>
          (case radudpget_peer s want_client want_server src p w1 of
             None \<Rightarrow> None
           | Some (PContinue w2) \<Rightarrow> radudpget_loop E s want_client want_server b1 init1 nt1 w2
           | Some (PBreak c sv w2) \<Rightarrow> Some (Returned len c sv b1 nt1 w2)))"
  by pat_completeness auto
termination
proof (relation "measure (\<lambda>(E, s, wc, ws, b, init, nt, w). length (ioerrs nt) + length (sockq nt s))")
  have rd: "length (ioerrs nt1) + length (sockq nt1 s) \<le> length (ioerrs nt) + length (sockq nt s) \<and>
            (r = RecvErr \<or> (\<not> peek \<and> r \<noteq> RecvBlock) \<longrightarrow>
             length (ioerrs nt1) + length (sockq nt1 s) < length (ioerrs nt) + length (sockq nt s))"
    if "recv_dgram peek trunc s n nt = (r, nt1)" for peek trunc s n nt r nt1
    using that by (auto simp: recv_dgram_def split: list.splits bool.splits if_splits prod.splits)
  have dr: "length (ioerrs nt1) + length (sockq nt1 s) < length (ioerrs nt) + length (sockq nt s)"
    if "drain s b init nt w = FContinue b1 init1 nt1 w1" for s b init nt w b1 init1 nt1 w1
    using that rd [of False False s 4 nt]
    by (auto simp: drain_def split: prod.splits recv_result.splits)
  have da: "drain s b init nt w \<noteq> FAccept len b1 src p init1 nt1 w1"
    for s b init nt w len b1 src p init1 nt1 w1
    by (auto simp: drain_def split: prod.splits recv_result.splits)
  have fr: "length (ioerrs nt1) + length (sockq nt1 s) < length (ioerrs nt) + length (sockq nt s)"
    if "radudpget_frame E s wc b init nt w = Some (FContinue b1 init1 nt1 w1) \<or>
        radudpget_frame E s wc b init nt w = Some (FAccept len b1 src p init1 nt1 w1)"
    for E s wc b init nt w b1 init1 nt1 w1 len src p
  proof -
    obtain r nta where p1: "recv_dgram True True s 4 nt = (r, nta)"
      by (cases "recv_dgram True True s 4 nt")
    note le1 = rd [OF p1]
    show ?thesis
    proof (cases r)
      case RecvErr
      then show ?thesis using that p1 le1
        by (auto simp: radudpget_frame_def Let_def split: Option.bind_splits)
    next
      case RecvBlock
      then show ?thesis using that p1
        by (auto simp: radudpget_frame_def Let_def split: Option.bind_splits)
    next
      case (RecvOk cnt hdr src0)
      have d: "length (ioerrs nt1) + length (sockq nt1 s) < length (ioerrs nta) + length (sockq nta s)"
        if "drain s bb ii nta ww = FContinue b1 init1 nt1 w1" for bb ii ww
        using dr [OF that] .
      have r2: "length (ioerrs nt1) + length (sockq nt1 s) < length (ioerrs nta) + length (sockq nta s)"
        if "recv_dgram False True s n nta = (r', nt1)" "r' \<noteq> RecvBlock" for n r'
        using rd [OF that(1)] that(2) by auto
      show ?thesis
        using that p1 RecvOk le1
        by (auto simp: radudpget_frame_def Let_def da
            split: Option.bind_splits if_splits prod.splits recv_result.splits dest!: d dest: r2)
    qed
  qed
  show "wf (measure (\<lambda>(E, s, wc, ws, b, init, nt, w). length (ioerrs nt) + length (sockq nt s)))"
    by simp
  show "((E, s, want_client, want_server, b1, init1, nt1, w1), E, s, want_client, want_server, b, init, nt, w)
        \<in> measure (\<lambda>(E, s, wc, ws, b, init, nt, w). length (ioerrs nt) + length (sockq nt s))"
    if "radudpget_frame E s want_client b init nt w = Some r" "r = FContinue b1 init1 nt1 w1"
    for E s want_client want_server b init nt w r b1 init1 nt1 w1
    using fr [of E s want_client b init nt w b1 init1 nt1 w1] that by simp
  show "((E, s, want_client, want_server, b1, init1, nt1, w2), E, s, want_client, want_server, b, init, nt, w)
        \<in> measure (\<lambda>(E, s, wc, ws, b, init, nt, w). length (ioerrs nt) + length (sockq nt s))"
    if "radudpget_frame E s want_client b init nt w = Some r" "r = FAccept len b1 src p init1 nt1 w1"
    for E s want_client want_server b init nt w r len b1 src p init1 nt1 w1 w2
    using fr [of E s want_client b init nt w b1 init1 nt1 w1 len src p] that by simp
qed

declare radudpget_loop.simps [simp del]

text \<open>
  \<open>radudpget(s, client, server, buf)\<close>: \<open>want_client\<close> and \<open>want_server\<close> say which of
  \<open>client\<close> and \<open>server\<close> is non-null, \<open>b\<close> is \<open>*buf\<close> at the call, and \<open>init\<close> is what
  the uninitialised \<open>init_buf\<close> happens to hold. The first turn frees \<open>*buf\<close> when it
  is not null: a call with \<open>*buf\<close> neither null nor a live buffer has no result
  (\<open>udpclientrd\<close> passes the address of a local \<open>buf\<close> that it never sets, so what
  that call does rests on what the variable happens to hold).
\<close>

definition radudpget :: "env \<Rightarrow> int \<Rightarrow> bool \<Rightarrow> bool \<Rightarrow> nat \<Rightarrow> byte list \<Rightarrow> net \<Rightarrow> world \<Rightarrow> rget option" where
  "radudpget E s want_client want_server b init nt w =
     radudpget_loop E s want_client want_server b init nt w"


subsection \<open>The outbound socket pool\<close>

text \<open>
  \<open>struct addrinfo\<close> with the fields \<open>addserverextraudp\<close> reads (\<open>ai_addr\<close> is the
  object \<open>ai_addr\<close> points to, as bytes; a list of them is the \<open>ai_next\<close> chain), and
  \<open>struct client_sock\<close> (\<open>source\<close> is the \<open>sockaddr_storage\<close> it points to, as
  bytes). The static list \<open>client_sock\<close> is the field \<open>pool\<close> of the state, \<open>None\<close>
  while the pointer is null; \<open>fresh\<close> is what newly allocated storage holds before it
  is written.
\<close>

record addrinfo =
  ai_family :: sa_family
  ai_addr :: "byte list"
  ai_addrlen :: nat

record client_sock =
  source :: "byte list"
  socket :: int

record udp_state = alloc +
  pool :: "client_sock list option"
  srcres :: "addrinfo list"
  fresh :: "byte list"

text \<open>
  Modelled from the spec: \<open>debugx\<close> (\<open>debug.c\<close>) is not among the sources;
  configuration-time failures end the process through it. A configuration-time
  function ends with \<open>debugx(1, ...)\<close> (\<open>Exited\<close>), with a failed \<open>assert\<close>
  (\<open>Aborted\<close>), or it returns.
\<close>

datatype 'a run = Exited | Aborted | Ran 'a

text \<open>
  The inner loop (lines 352-358) over the pool entries from \<open>entry\<close> on; the result is
  \<open>conf->servers->sock\<close> when the loop is left, at its \<open>break\<close> or at the end of the
  pool.
\<close>

fun pool_find :: "addrinfo \<Rightarrow> client_sock list \<Rightarrow> int \<Rightarrow> int option" where
  "pool_find ai [] sk = Some sk"
| "pool_find ai (e # es) sk = do {
     r \<leftarrow> memcmp (Some (ai_addr ai)) (Some (source e)) (ai_addrlen ai);
     if r = 0 then Some (socket e) else pool_find ai es sk
   }"

text \<open>
  The candidate loop (lines 350-375) over the candidates from \<open>tmpaddrinfo\<close> on.
  \<open>bindtoaddr\<close> is a parameter (an external collaborator); \<open>hf\<close> is the address
  family of the server's first host/port entry, \<open>sk\<close> is \<open>conf->servers->sock\<close>. The
  three allocations are those of lines 360, 364 and of \<open>list_push\<close>.
\<close>

fun candidates_loop ::
  "(addrinfo \<Rightarrow> int) \<Rightarrow> sa_family \<Rightarrow> addrinfo list \<Rightarrow> int \<Rightarrow> udp_state \<Rightarrow> (int \<times> udp_state) run option" where
  "candidates_loop bindtoaddr hf [] sk st = Some (Ran (sk, st))"
| "candidates_loop bindtoaddr hf (ai # ais) sk st =
     (if ai_family ai = AF_UNSPEC \<or> ai_family ai = hf then do {
        sk1 \<leftarrow> pool_find ai (case pool st of None \<Rightarrow> [] | Some es \<Rightarrow> es) sk;
        if sk1 < 0 then
          (case malloc st of
             (cls, st1) \<Rightarrow>
               if cls = NULL then Some Exited
               else (case malloc st1 of
                 (srcp, st2) \<Rightarrow>
                   if srcp = NULL then Some Exited
                   else do {
                     bs \<leftarrow> (if ai_addrlen ai \<le> length (fresh st2)
                           then memcpy (ai_addr ai) (ai_addrlen ai) else None);
                     es \<leftarrow> pool st2;
                     case malloc st2 of
                       (node, st3) \<Rightarrow>
                         if node = NULL then Some Exited
                         else Some (Ran (bindtoaddr ai,
                           st3\<lparr>pool := Some (es @
                             [\<lparr>source = store_bytes bs (fresh st3), socket = bindtoaddr ai\<rparr>])\<rparr>))
                   }))
        else candidates_loop bindtoaddr hf ais sk1 st
      } else candidates_loop bindtoaddr hf ais sk st)"

text \<open>
  \<open>addserverextraudp(conf)\<close>: \<open>hf\<close> is the family of the first entry of
  \<open>conf->hostports\<close> (\<open>None\<close>: the list is empty), \<open>conf_source\<close> is \<open>conf->source\<close>,
  \<open>sk\<close> is \<open>conf->servers->sock\<close> at the call, \<open>resolvepassiveaddrinfo\<close> is a
  parameter (the empty list is its null result). The result is
  \<open>conf->servers->sock\<close> at the return.
\<close>

definition addserverextraudp ::
  "(string \<Rightarrow> addrinfo list) \<Rightarrow> (addrinfo \<Rightarrow> int) \<Rightarrow> sa_family option \<Rightarrow> string option \<Rightarrow> int \<Rightarrow> udp_state
     \<Rightarrow> (int \<times> udp_state) run option" where
  "addserverextraudp resolvepassiveaddrinfo bindtoaddr hf conf_source sk st =
     (case hf of
        None \<Rightarrow> Some Aborted
      | Some fam \<Rightarrow>
          let src = (case conf_source of None \<Rightarrow> [] | Some name \<Rightarrow> resolvepassiveaddrinfo name);
              st1 = (if pool st = None
                     then (case list_create st of (l, st') \<Rightarrow> st'\<lparr>pool := map_option (\<lambda>_. []) l\<rparr>)
                     else st)
          in do {
            r \<leftarrow> candidates_loop bindtoaddr fam (if src \<noteq> [] then src else srcres st1) sk st1;
            case r of
              Ran (sk1, st2) \<Rightarrow> if sk1 < 0 then Some Exited else Some (Ran (sk1, st2))
            | other \<Rightarrow> Some other
          })"


section \<open>Notions used in the statements\<close>

text \<open>The TLV at address \<open>a\<close> is live and has type \<open>t\<close>.\<close>

definition has_type :: "tlv_heap \<Rightarrow> byte \<Rightarrow> nat \<Rightarrow> bool" where
  "has_type h t a = (case tlvs h a of None \<Rightarrow> False | Some x \<Rightarrow> tlv_t x = t)"

text \<open>A request with its \<open>from\<close> cleared when it points at the client \<open>c\<close>.\<close>

definition clear_from :: "nat \<Rightarrow> request \<Rightarrow> request" where
  "clear_from c r = (if rq_from r = c then r\<lparr>rq_from := NULL\<rparr> else r)"

text \<open>
  What the pass of \<open>radudpget\<close> does with the client at \<open>c\<close>, for a datagram from
  \<open>src\<close> on socket \<open>s\<close> at time \<open>now\<close>, while \<open>*client\<close> is \<open>found\<close>.
  \<open>matches\<close>: a live client of socket \<open>s\<close> whose address \<open>addr_equal\<close> finds equal to
  the source. \<open>quiet\<close>: a live client that the pass leaves as it is and steps over (of
  another socket, or neither past its expiry nor a first match). \<open>expired_other\<close>: a
  live client of socket \<open>s\<close>, past its expiry and not a first match, with all that its
  removal dereferences alive (its configuration, its reply queue and the requests
  queued there). \<open>evicted c w\<close> is the state after the removal of \<open>c\<close>: the queued
  requests scrubbed, \<open>c\<close> taken out of the client list of its configuration and freed.
  \<open>refreshed now c w\<close> is the state with the expiry of \<open>c\<close> set to \<open>now + 60\<close>.
\<close>

definition differs :: "sockaddr \<Rightarrow> client \<Rightarrow> bool" where
  "differs src cl = (case addr cl of None \<Rightarrow> False | Some a \<Rightarrow> addr_equal src a = Some False)"

definition matches :: "int \<Rightarrow> sockaddr \<Rightarrow> world \<Rightarrow> nat \<Rightarrow> bool" where
  "matches s src w c =
     (case client_at w c of
        None \<Rightarrow> False
      | Some cl \<Rightarrow> sock cl = s \<and>
          (case addr cl of None \<Rightarrow> False | Some a \<Rightarrow> addr_equal src a = Some True))"

definition quiet :: "int \<Rightarrow> sockaddr \<Rightarrow> int \<Rightarrow> nat \<Rightarrow> world \<Rightarrow> nat \<Rightarrow> bool" where
  "quiet s src now found w c =
     (case client_at w c of
        None \<Rightarrow> False
      | Some cl \<Rightarrow> sock cl \<noteq> s \<or> (now \<le> expiry cl \<and> (found \<noteq> NULL \<or> differs src cl)))"





text \<open>None of the next \<open>n\<close> receive calls fails.\<close>

definition no_ioerr :: "nat \<Rightarrow> net \<Rightarrow> bool" where
  "no_ioerr n nt = (True \<notin> set (take n (ioerrs nt)))"

subsection \<open>A listener with two clients\<close>

text \<open>
  The state the examples run in, after the spec's scenario of idle eviction: the peer
  10.0.0.5:4000 sent at \<open>t = 0\<close> and has the client record 1, with expiry 60; the
  peer 10.0.0.6:4000 has the client record 7, with expiry 100. Both were received on
  socket 3 for the configuration 4, which lists them in this order. The shared reply
  queue 2 holds the request 5 from client 1 and the request 6 from client 7. The
  clock reads 61. The peer 10.0.0.9:4000 has no client record.
\<close>

definition peer5 :: sockaddr where
  "peer5 = \<lparr>sa_family = AF_INET, sa_data = [15, 160, 10, 0, 0, 5, 0, 0, 0, 0, 0, 0, 0, 0]\<rparr>"

definition peer6 :: sockaddr where
  "peer6 = \<lparr>sa_family = AF_INET, sa_data = [15, 160, 10, 0, 0, 6, 0, 0, 0, 0, 0, 0, 0, 0]\<rparr>"

definition peer9 :: sockaddr where
  "peer9 = \<lparr>sa_family = AF_INET, sa_data = [15, 160, 10, 0, 0, 9, 0, 0, 0, 0, 0, 0, 0, 0]\<rparr>"

definition request5 :: request where
  "request5 = \<lparr>rq_from = 1, buf = NULL, buflen = 38, udpsock = 3, created = 0,
                replybuf = NULL, replybuflen = 20, refcount = 1\<rparr>"

definition request6 :: request where
  "request6 = \<lparr>rq_from = 7, buf = NULL, buflen = 38, udpsock = 3, created = 40,
                replybuf = NULL, replybuflen = 20, refcount = 1\<rparr>"

definition idle_world :: world where
  "idle_world =
     \<lparr>alloc_ok = [True, True, True], brk = 9,
      clientheap = [1 \<mapsto> \<lparr>sock = 3, addr = Some peer5, expiry = 60, replyq = 2, conf = 4\<rparr>,
                    7 \<mapsto> \<lparr>sock = 3, addr = Some peer6, expiry = 100, replyq = 2, conf = 4\<rparr>],
      confs = [4 \<mapsto> \<lparr>clients = [1, 7], servers = NULL\<rparr>],
      requests = [5 \<mapsto> request5, 6 \<mapsto> request6],
      queues = [2 \<mapsto> \<lparr>entries = [5, 6]\<rparr>],
      bufs = Map.empty, server_replyq = 2, clock = (\<lambda>n. 61), ticks = 0\<rparr>"

subsection \<open>A listener socket\<close>

text \<open>
  Modelled from the spec: \<open>get_checked_rad_length\<close> is not among the sources. In
  the environment of the examples it reads the total length from bytes 2 and 3 of the
  header, big-endian, and returns it negated when it is invalid (below the 20 bytes of
  a RADIUS header). Every source address belongs to the client configuration 4, none
  to a server configuration. \<open>listener_net ds\<close> has the datagrams \<open>ds\<close> queued on
  socket 3 and no failing receive call. \<open>access_request\<close> is a datagram of 38 bytes
  that declares 38 bytes, \<open>oversize_request\<close> one that declares 5000.
\<close>

definition access_request :: "byte list" where
  "access_request = [1, 7, 0, 38] @ replicate 34 0"

definition oversize_request :: "byte list" where
  "oversize_request = [1, 7, 19, 136] @ replicate 16 0"

definition listener_env :: env where
  "listener_env =
     \<lparr>get_checked_rad_length =
        (\<lambda>h. let n = int (unat (h ! 2)) * 256 + int (unat (h ! 3)) in if n < 20 then - n else n),
      find_clconf = (\<lambda>a. 4),
      find_srvconf = (\<lambda>a. NULL)\<rparr>"

definition listener_net :: "(sockaddr \<times> byte list) list \<Rightarrow> net" where
  "listener_net ds = \<lparr>sockq = (\<lambda>s. if s = 3 then ds else []), ioerrs = []\<rparr>"

section \<open>Properties of the memory model\<close>

lemma malloc_ok: "alloc_ok h = True # rest \<Longrightarrow>
    malloc h = (Suc (brk h), h\<lparr>alloc_ok := rest, brk := Suc (brk h)\<rparr>)"
  by (simp add: malloc_def)

lemma malloc_tlvs: "malloc h = (p, h1) \<Longrightarrow> tlvs h1 = tlvs h"
  by (auto simp: malloc_def split: list.splits if_splits)

lemma bytes_cmp_refl: "bytes_cmp xs xs = 0"
  by (induction xs) auto

lemma bytes_cmp_eq: "length xs = length ys \<Longrightarrow> bytes_cmp xs ys = 0 \<longleftrightarrow> xs = ys"
  by (induction xs ys rule: list_induct2) auto

lemma memcmp_refl:
  "v = None \<and> n = 0 \<or> (\<exists>bs. v = Some bs \<and> n \<le> length bs) \<Longrightarrow> memcmp v v n = Some 0"
  by (auto simp: memcmp_def bytes_cmp_refl)

lemma memcmp_Some: "n \<le> length xs \<Longrightarrow> n \<le> length ys \<Longrightarrow>
    memcmp (Some xs) (Some ys) n = Some (bytes_cmp (take n xs) (take n ys))"
  by (auto simp: memcmp_def)


lemma allocs_ok_1: "allocs_ok 1 h \<longleftrightarrow> (\<exists>rest. alloc_ok h = True # rest)"
  by (cases "alloc_ok h") (auto simp: allocs_ok_def)

lemma request_at_Some: "request_at w n = Some r \<longleftrightarrow> n \<noteq> NULL \<and> requests w n = Some r"
  by (simp add: request_at_def)

lemma request_at_None: "request_at w n = None \<longleftrightarrow> n = NULL \<or> requests w n = None"
  by (simp add: request_at_def)

lemma queue_at_Some: "queue_at w n = Some r \<longleftrightarrow> n \<noteq> NULL \<and> queues w n = Some r"
  by (simp add: queue_at_def)


lemma conf_at_Some: "conf_at w n = Some r \<longleftrightarrow> n \<noteq> NULL \<and> confs w n = Some r"
  by (simp add: conf_at_def)

section \<open>Properties of the TLV module\<close>

lemma maketlv_stored:
  assumes "maketlv t l v h = Some (p, h')" and "p \<noteq> NULL"
  shows "tlvs h' p = Some \<lparr>tlv_t = t, tlv_l = l,
            tlv_v = (if l \<noteq> 0 \<and> v \<noteq> None then Some (take (unat l) (the v)) else None)\<rparr>"
    and "l \<noteq> 0 \<and> v \<noteq> None \<Longrightarrow> unat l \<le> length (the v)"
  using assms
  by (auto simp: maketlv_def memcpy_def split: prod.splits if_splits Option.bind_splits)

lemma maketlv_frame:
  assumes "maketlv t l v h = Some (p, h')" and "p' \<noteq> p"
  shows "tlvs h' p' = tlvs h p'"
  using assms
  by (auto simp: maketlv_def memcpy_def split: prod.splits if_splits Option.bind_splits
      dest!: malloc_tlvs)

lemma tlv_inv_made:
  "l = 0 \<or> (\<exists>bs. v = Some bs \<and> unat l \<le> length bs) \<Longrightarrow>
   tlv_inv \<lparr>tlv_t = t, tlv_l = l,
            tlv_v = (if l \<noteq> 0 \<and> v \<noteq> None then Some (take (unat l) (the v)) else None)\<rparr>"
  by (auto simp: tlv_inv_def)

lemma maketlv_defined:
  "l = 0 \<or> v = None \<or> unat l \<le> length (the v) \<Longrightarrow> \<exists>p h'. maketlv t l v h = Some (p, h')"
  by (auto simp: maketlv_def memcpy_def split: prod.splits)

lemma maketlv_succeeds:
  assumes "allocs_ok 2 h" and "l = 0 \<or> v = None \<or> unat l \<le> length (the v)"
  shows "\<exists>h'. maketlv t l v h = Some (Suc (brk h), h')"
proof -
  from assms(1) obtain rest where a: "alloc_ok h = True # True # rest"
    by (cases "alloc_ok h"; cases "tl (alloc_ok h)") (auto simp: allocs_ok_def numeral_2_eq_2)
  show ?thesis
    using assms(2) by (auto simp: maketlv_def malloc_ok [OF a] malloc_def a memcpy_def)
qed

text \<open>
  C10. The claim: for every input \<open>(t, l, v)\<close>, also \<open>l > 0\<close> with \<open>v\<close> absent, a TLV
  that \<open>maketlv\<close> returns satisfies the TLV invariant. It fails for \<open>l > 0\<close> with a
  null \<open>v\<close>: the guard \<open>l && v\<close> stores a null value beside the length \<open>l\<close>. Here
  \<open>maketlv(1, 5, NULL)\<close> returns a TLV with \<open>l = 5\<close> and no value.
\<close>

theorem maketlv_absent_value_counterexample:
  "tlv_at (maketlv 1 5 None \<lparr>alloc_ok = [True], brk = 0, tlvs = Map.empty\<rparr>)
     = Some \<lparr>tlv_t = 1, tlv_l = 5, tlv_v = None\<rparr> \<and>
   \<not> tlv_inv \<lparr>tlv_t = 1, tlv_l = 5, tlv_v = None\<rparr>"
  by (simp add: tlv_at_def maketlv_def malloc_def deref_def tlv_inv_def)

text \<open>
  C10, amended. A TLV that \<open>maketlv(t, l, v)\<close> returns has type \<open>t\<close> and length \<open>l\<close>;
  its value is present, with exactly the first \<open>l\<close> bytes of \<open>v\<close>, when \<open>l > 0\<close> and
  \<open>v\<close> is present, and absent otherwise. So it satisfies the TLV invariant whenever
  \<open>l = 0\<close> or \<open>v\<close> is present.
\<close>

theorem maketlv_result:
  assumes "maketlv t l v h = Some (p, h')" and "p \<noteq> NULL"
  shows "tlvs h' p = Some \<lparr>tlv_t = t, tlv_l = l,
            tlv_v = (if l \<noteq> 0 \<and> v \<noteq> None then Some (take (unat l) (the v)) else None)\<rparr> \<and>
         ((l = 0 \<or> v \<noteq> None) \<longrightarrow> (\<exists>x. tlvs h' p = Some x \<and> tlv_inv x))"
proof -
  note st = maketlv_stored [OF assms]
  have "l = 0 \<or> v \<noteq> None \<Longrightarrow> l = 0 \<or> (\<exists>bs. v = Some bs \<and> unat l \<le> length bs)"
    using st(2) by (cases v) auto
  then show ?thesis
    using st(1) tlv_inv_made [of l v t] by auto
qed

theorem maketlv_result_witness:
  "maketlv 1 2 (Some [3, 4]) \<lparr>alloc_ok = [True, True], brk = 0, tlvs = Map.empty\<rparr>
     = Some (1, \<lparr>alloc_ok = [], brk = 2,
                 tlvs = [1 \<mapsto> \<lparr>tlv_t = 1, tlv_l = 2, tlv_v = Some [3, 4]\<rparr>]\<rparr>) \<and>
   tlv_inv \<lparr>tlv_t = 1, tlv_l = 2, tlv_v = Some [3, 4]\<rparr>"
  using maketlv_result [of 1 2 "Some [3, 4]"
      "\<lparr>alloc_ok = [True, True], brk = 0, tlvs = Map.empty\<rparr>" 1
      "\<lparr>alloc_ok = [], brk = 2, tlvs = [1 \<mapsto> \<lparr>tlv_t = 1, tlv_l = 2, tlv_v = Some [3, 4]\<rparr>]\<rparr>"]
  by (simp add: maketlv_def malloc_def memcpy_def)

text \<open>
  C9. For every TLV that satisfies the TLV invariant, \<open>copytlv\<close> is defined, and when
  it returns a copy (it does when the two allocations succeed) \<open>eqtlv\<close> of the copy
  and the original returns true; \<open>copytlv\<close> of the null pointer is the null pointer.
\<close>

theorem copytlv_eqtlv:
  assumes "p \<noteq> NULL" and "tlvs h p = Some x" and "tlv_inv x"
  shows "copytlv NULL h = Some (NULL, h) \<and>
         (\<exists>q h'. copytlv p h = Some (q, h') \<and>
            (q \<noteq> NULL \<longrightarrow> eqtlv h' q p = Some True) \<and>
            (allocs_ok 2 h \<longrightarrow> q \<noteq> NULL))"
proof -
  have len: "tlv_l x = 0 \<or> tlv_v x = None \<or> unat (tlv_l x) \<le> length (the (tlv_v x))"
    using assms(3) by (auto simp: tlv_inv_def split: option.splits if_splits)
  have cp: "copytlv p h = maketlv (tlv_t x) (tlv_l x) (tlv_v x) h"
    using assms(1,2) by (simp add: copytlv_def deref_def)
  from maketlv_defined [OF len]
  obtain q h' where mk: "maketlv (tlv_t x) (tlv_l x) (tlv_v x) h = Some (q, h')"
    by blast
  have eq: "eqtlv h' q p = Some True" if "q \<noteq> NULL"
  proof -
    let ?c = "\<lparr>tlv_t = tlv_t x, tlv_l = tlv_l x,
        tlv_v = (if tlv_l x \<noteq> 0 \<and> tlv_v x \<noteq> None
                 then Some (take (unat (tlv_l x)) (the (tlv_v x))) else None)\<rparr>"
    have c: "tlvs h' q = Some ?c"
      using maketlv_stored(1) [OF mk that] .
    have cx: "?c = x"
      using assms(3) by (cases x) (auto simp: tlv_inv_def split: option.splits if_splits)
    have px: "tlvs h' p = Some x"
    proof (cases "p = q")
      case True
      then show ?thesis using c cx by simp
    next
      case False
      then show ?thesis using maketlv_frame [OF mk, of p] assms(2) by simp
    qed
    have "memcmp (tlv_v x) (tlv_v x) (unat (tlv_l x)) = Some 0"
      using assms(3)
      by (intro memcmp_refl) (auto simp: tlv_inv_def split: option.splits if_splits)
    then show ?thesis
      using c cx px assms(1) that by (simp add: eqtlv_def deref_def)
  qed
  have ok: "q \<noteq> NULL" if "allocs_ok 2 h"
    using maketlv_succeeds [OF that len, of "tlv_t x"] mk by auto
  show ?thesis
    using cp mk eq ok by (simp add: copytlv_def)
qed

theorem copytlv_eqtlv_witness:
  "tlv_inv \<lparr>tlv_t = 1, tlv_l = 2, tlv_v = Some [3, 4]\<rparr> \<and>
   (\<exists>q h'. copytlv 1 \<lparr>alloc_ok = [True, True], brk = 1,
                       tlvs = [1 \<mapsto> \<lparr>tlv_t = 1, tlv_l = 2, tlv_v = Some [3, 4]\<rparr>]\<rparr> = Some (q, h') \<and>
       q \<noteq> NULL \<and> eqtlv h' q 1 = Some True)"
proof -
  let ?x = "\<lparr>tlv_t = 1, tlv_l = 2, tlv_v = Some [3, 4]\<rparr>"
  let ?h = "\<lparr>alloc_ok = [True, True], brk = 1, tlvs = [1 \<mapsto> ?x]\<rparr>"
  have i: "tlv_inv ?x"
    by (simp add: tlv_inv_def)
  have a: "allocs_ok 2 ?h"
    by (simp add: allocs_ok_def numeral_2_eq_2)
  show ?thesis
    using copytlv_eqtlv [of 1 ?h ?x] i a by auto
qed

lemma rmtlv_loop_result:
  assumes "\<forall>a\<in>set rest. a \<noteq> NULL \<and> tlvs h a \<noteq> None" and "\<forall>a\<in>set kept. \<not> has_type h t a"
  shows "rmtlv_loop t kept rest h =
         Some (kept @ filter (\<lambda>a. \<not> has_type h t a) rest,
               h\<lparr>tlvs := (\<lambda>a. if a \<in> set rest \<and> has_type h t a then None else tlvs h a)\<rparr>)"
  using assms
proof (induction t kept rest h rule: rmtlv_loop.induct)
  case (1 t kept h)
  then show ?case by simp
next
  case (2 t kept n rest h)
  from "2.prems"(1) obtain x where x: "n \<noteq> NULL" "tlvs h n = Some x"
    by auto
  then have d: "deref h n = Some x"
    by (simp add: deref_def)
  show ?case
  proof (cases "tlv_t x = t")
    case True
    let ?h1 = "h\<lparr>tlvs := (tlvs h)(n := None)\<rparr>"
    have f: "freetlv n h = Some ?h1"
      using x d by (simp add: freetlv_def)
    have nt: "has_type h t n"
      using x True by (simp add: has_type_def)
    then have nk: "n \<notin> set kept"
      using "2.prems"(2) by auto
    then have kept: "list_removedata kept n = kept"
      by (auto simp: list_removedata_def filter_id_conv)
    have same: "has_type ?h1 t a = (a \<noteq> n \<and> has_type h t a)" for a
      by (simp add: has_type_def)
    have p1: "\<forall>a\<in>set (list_removedata rest n). a \<noteq> NULL \<and> tlvs ?h1 a \<noteq> None"
      using "2.prems"(1) by (auto simp: list_removedata_def)
    have p2: "\<forall>a\<in>set kept. \<not> has_type ?h1 t a"
      using "2.prems"(2) by (simp add: same)
    have ih: "rmtlv_loop t kept (list_removedata rest n) ?h1 =
         Some (kept @ filter (\<lambda>a. \<not> has_type ?h1 t a) (list_removedata rest n),
               ?h1\<lparr>tlvs := (\<lambda>a. if a \<in> set (list_removedata rest n) \<and> has_type ?h1 t a then None else tlvs ?h1 a)\<rparr>)"
      using "2.IH"(1) [OF d True f] p1 p2 by (simp add: kept)
    have l: "filter (\<lambda>a. \<not> has_type ?h1 t a) (list_removedata rest n) = filter (\<lambda>a. \<not> has_type h t a) (n # rest)"
      using nt by (auto simp: list_removedata_def same intro!: filter_cong)
    have m: "(\<lambda>a. if a \<in> set (list_removedata rest n) \<and> has_type ?h1 t a then None else tlvs ?h1 a) =
             (\<lambda>a. if a \<in> set (n # rest) \<and> has_type h t a then None else tlvs h a)"
      using nt by (auto simp: fun_eq_iff list_removedata_def same)
    have "rmtlv_loop t kept (n # rest) h = rmtlv_loop t kept (list_removedata rest n) ?h1"
      using d True f by (simp add: kept)
    then show ?thesis
      using ih by (simp only: l m) simp
  next
    case False
    have nt: "\<not> has_type h t n"
      using x False by (simp add: has_type_def)
    have p1: "\<forall>a\<in>set rest. a \<noteq> NULL \<and> tlvs h a \<noteq> None"
      using "2.prems"(1) by simp
    have p2: "\<forall>a\<in>set (kept @ [n]). \<not> has_type h t a"
      using "2.prems"(2) nt by simp
    have m: "(\<lambda>a. if a \<in> set rest \<and> has_type h t a then None else tlvs h a) =
             (\<lambda>a. if a \<in> set (n # rest) \<and> has_type h t a then None else tlvs h a)"
      using nt by (auto simp: fun_eq_iff)
    have "rmtlv_loop t kept (n # rest) h = rmtlv_loop t (kept @ [n]) rest h"
      using d False by simp
    then show ?thesis
      using "2.IH"(2) [OF d False p1 p2] nt by (simp add: m)
  qed
qed

text \<open>
  C8. For every TLV list (distinct, non-null pointers to live TLVs: each TLV is owned
  by the list alone) and every type byte \<open>t\<close>, \<open>rmtlv\<close> returns; the list it leaves
  is the list of the elements whose type differs from \<open>t\<close>, in their order; these
  TLVs are untouched, so none of them has type \<open>t\<close>; the TLVs of type \<open>t\<close> are freed;
  nothing else on the heap changes.
\<close>

theorem rmtlv_removes_type:
  assumes "distinct xs" and "\<forall>a\<in>set xs. a \<noteq> NULL \<and> tlvs h a \<noteq> None"
  shows "\<exists>ys h'. rmtlv xs t h = Some (ys, h') \<and>
           ys = filter (\<lambda>a. \<not> has_type h t a) xs \<and>
           (\<forall>a\<in>set ys. tlvs h' a = tlvs h a \<and> \<not> has_type h' t a) \<and>
           (\<forall>a\<in>set xs. has_type h t a \<longrightarrow> tlvs h' a = None) \<and>
           (\<forall>a. a \<notin> set xs \<longrightarrow> tlvs h' a = tlvs h a)"
  using rmtlv_loop_result [OF assms(2), of "[]" t]
  by (auto simp: rmtlv_def has_type_def)

theorem rmtlv_removes_type_witness:
  "rmtlv [1, 2, 3] 7
     \<lparr>alloc_ok = [], brk = 3,
      tlvs = [1 \<mapsto> \<lparr>tlv_t = 7, tlv_l = 0, tlv_v = None\<rparr>,
              2 \<mapsto> \<lparr>tlv_t = 8, tlv_l = 0, tlv_v = None\<rparr>,
              3 \<mapsto> \<lparr>tlv_t = 7, tlv_l = 1, tlv_v = Some [5]\<rparr>]\<rparr>
   = Some ([2], \<lparr>alloc_ok = [], brk = 3, tlvs = [2 \<mapsto> \<lparr>tlv_t = 8, tlv_l = 0, tlv_v = None\<rparr>]\<rparr>)"
proof -
  let ?h = "\<lparr>alloc_ok = [], brk = 3,
      tlvs = [1 \<mapsto> \<lparr>tlv_t = 7, tlv_l = 0, tlv_v = None\<rparr>,
              2 \<mapsto> \<lparr>tlv_t = 8, tlv_l = 0, tlv_v = None\<rparr>,
              3 \<mapsto> \<lparr>tlv_t = 7, tlv_l = 1, tlv_v = Some [5]\<rparr>]\<rparr>"
  have d: "distinct [1, 2, 3 :: nat]"
    by simp
  have l: "\<forall>a\<in>set [1, 2, 3]. a \<noteq> NULL \<and> tlvs ?h a \<noteq> None"
    by simp
  from rmtlv_removes_type [OF d l, of 7]
  obtain ys h' where r: "rmtlv [1, 2, 3] 7 ?h = Some (ys, h')"
    and ys: "ys = filter (\<lambda>a. \<not> has_type ?h 7 a) [1, 2, 3]"
    and rm: "\<forall>a\<in>set [1, 2, 3]. has_type ?h 7 a \<longrightarrow> tlvs h' a = None"
    by blast
  have "ys = [2]"
    using ys by (simp add: has_type_def)
  then show ?thesis
    using r by (simp add: rmtlv_def deref_def freetlv_def list_removedata_def fun_eq_iff)
qed

text \<open>
  C7. The claim: when the allocation of an element's copy fails, \<open>copytlvlist\<close>
  frees what it copied and returns null, and never returns a list with a null element.
  The code tests the result of \<open>list_push\<close> only. Here the list holds one TLV, the
  list header is allocated, the allocation of the copy fails and the allocation of the
  list node succeeds: \<open>copytlvlist\<close> returns the list whose one element is null.
\<close>

theorem copytlvlist_null_element:
  "map_option fst (copytlvlist (Some [1])
     \<lparr>alloc_ok = [True, False, True], brk = 1,
      tlvs = [1 \<mapsto> \<lparr>tlv_t = 7, tlv_l = 0, tlv_v = None\<rparr>]\<rparr>)
   = Some (Some [NULL])"
  by (simp add: copytlvlist_def list_create_def malloc_def copytlv_def deref_def maketlv_def
      list_push_def)

text \<open>
  The other order of failures: the copy is allocated (at address 3) and the allocation
  of the list node fails. \<open>copytlvlist\<close> returns null, and the copy, which never
  entered the list, is still allocated.
\<close>

lemma copytlvlist_leaks_copy:
  "map_option (\<lambda>(l, h). (l, tlvs h 3)) (copytlvlist (Some [1])
     \<lparr>alloc_ok = [True, True, False], brk = 1,
      tlvs = [1 \<mapsto> \<lparr>tlv_t = 7, tlv_l = 0, tlv_v = None\<rparr>]\<rparr>)
   = Some (None, Some \<lparr>tlv_t = 7, tlv_l = 0, tlv_v = None\<rparr>)"
  by (simp add: copytlvlist_def list_create_def malloc_def copytlv_def deref_def maketlv_def
      list_push_def list_destroy_def)

section \<open>Properties of the address helpers\<close>

lemma addr_equal_inet:
  assumes "sa_family a = AF_INET" and "14 \<le> length (sa_data a)" and "14 \<le> length (sa_data b)"
  shows "addr_equal a b = Some (take 4 (drop 2 (sa_data a)) = take 4 (drop 2 (sa_data b)) \<and>
                                take 2 (sa_data a) = take 2 (sa_data b))"
  using assms
  by (simp add: addr_equal_def sin_addr_def sin_port_def sa_field_def memcmp_Some bytes_cmp_eq)

lemma addr_equal_inet6:
  assumes "sa_family a = AF_INET6" and "26 \<le> length (sa_data a)" and "26 \<le> length (sa_data b)"
  shows "addr_equal a b = Some (take 16 (drop 6 (sa_data a)) = take 16 (drop 6 (sa_data b)) \<and>
                                take 2 (sa_data a) = take 2 (sa_data b))"
  using assms
  by (simp add: addr_equal_def sin6_addr_def sin6_port_def sa_field_def IN6_ARE_ADDR_EQUAL_def)

lemma addr_equal_family:
  assumes "sockaddr_ok a" and "sockaddr_ok b" and "sa_family a = sa_family b"
  shows "addr_equal a b = Some (addr_bytes a = addr_bytes b \<and> port_bytes a = port_bytes b)"
proof (cases "sa_family a")
  case AF_INET
  then show ?thesis
    using assms addr_equal_inet [of a b]
    by (auto simp: sockaddr_ok_def addr_bytes_def port_bytes_def)
next
  case AF_INET6
  then show ?thesis
    using assms addr_equal_inet6 [of a b]
    by (auto simp: sockaddr_ok_def addr_bytes_def port_bytes_def)
qed (use assms in \<open>auto simp: sockaddr_ok_def\<close>)

text \<open>
  C5. The claim: for all socket addresses \<open>a\<close> and \<open>b\<close> of the families \<open>AF_INET\<close> or
  \<open>AF_INET6\<close>, \<open>addr_equal(a, b)\<close> is true exactly when family, address bytes and
  port agree, and false whenever the families differ. It fails: the function never
  reads the family of \<open>b\<close>. The IPv4 address 0.0.0.0 port 1812 and the IPv6 address
  ::1 port 1812 (flow information 0, which lies where \<open>sin_addr\<close> does) compare equal.
\<close>

theorem addr_equal_family_counterexample:
  "addr_equal
     \<lparr>sa_family = AF_INET, sa_data = [7, 20, 0, 0, 0, 0, 0, 0, 0, 0, 0, 0, 0, 0]\<rparr>
     \<lparr>sa_family = AF_INET6,
      sa_data = [7, 20, 0, 0, 0, 0, 0, 0, 0, 0, 0, 0, 0, 0, 0, 0, 0, 0, 0, 0, 0, 1, 0, 0, 0, 0]\<rparr>
   = Some True"
  by (simp add: addr_equal_def sin_addr_def sin_port_def sa_field_def memcmp_def)

text \<open>
  C5, amended. For all socket addresses \<open>a\<close> and \<open>b\<close> of the same family, \<open>AF_INET\<close>
  or \<open>AF_INET6\<close>, \<open>addr_equal(a, b)\<close> is true exactly when the address bytes and the
  ports agree; on such pairs it is reflexive and symmetric.
\<close>

theorem addr_equal_same_family:
  assumes "sockaddr_ok a" and "sockaddr_ok b" and "sa_family a = sa_family b"
  shows "addr_equal a b = Some (addr_bytes a = addr_bytes b \<and> port_bytes a = port_bytes b) \<and>
         addr_equal a a = Some True \<and>
         addr_equal b a = addr_equal a b"
  using addr_equal_family [OF assms] addr_equal_family [OF assms(1) assms(1)]
    addr_equal_family [OF assms(2) assms(1)] assms(3)
  by auto

theorem addr_equal_same_family_witness:
  "sockaddr_ok \<lparr>sa_family = AF_INET, sa_data = [7, 20, 192, 0, 2, 1, 0, 0, 0, 0, 0, 0, 0, 0]\<rparr> \<and>
   sockaddr_ok \<lparr>sa_family = AF_INET, sa_data = [7, 20, 192, 0, 2, 9, 0, 0, 0, 0, 0, 0, 0, 0]\<rparr> \<and>
   addr_equal
     \<lparr>sa_family = AF_INET, sa_data = [7, 20, 192, 0, 2, 1, 0, 0, 0, 0, 0, 0, 0, 0]\<rparr>
     \<lparr>sa_family = AF_INET, sa_data = [7, 20, 192, 0, 2, 9, 0, 0, 0, 0, 0, 0, 0, 0]\<rparr>
   = Some False \<and>
   addr_equal
     \<lparr>sa_family = AF_INET, sa_data = [7, 20, 192, 0, 2, 1, 0, 0, 0, 0, 0, 0, 0, 0]\<rparr>
     \<lparr>sa_family = AF_INET, sa_data = [7, 20, 192, 0, 2, 1, 0, 0, 0, 0, 0, 0, 0, 0]\<rparr>
   = Some True"
  using addr_equal_same_family [of
      "\<lparr>sa_family = AF_INET, sa_data = [7, 20, 192, 0, 2, 1, 0, 0, 0, 0, 0, 0, 0, 0]\<rparr>"
      "\<lparr>sa_family = AF_INET, sa_data = [7, 20, 192, 0, 2, 9, 0, 0, 0, 0, 0, 0, 0, 0]\<rparr>"]
  by (simp add: sockaddr_ok_def addr_bytes_def port_bytes_def)


section \<open>Properties of the UDP transport\<close>

lemmas scenario_defs = idle_world_def peer5_def peer6_def peer9_def request5_def request6_def

lemmas eval_defs = client_at_def conf_at_def queue_at_def request_at_def gettimeofday_def
  addr_equal_def sin_addr_def sin_port_def sa_field_def memcmp_def

subsection \<open>The reply queue\<close>

lemma clear_from_idem: "clear_from c (clear_from c r) = clear_from c r"
  by (simp add: clear_from_def)

lemma replyq_loop_result:
  assumes "\<forall>n\<in>set ns. request_at w n \<noteq> None"
  shows "removeudpclientfromreplyq_loop ns c w =
         Some (w\<lparr>requests := (\<lambda>n. if n \<in> set ns then map_option (clear_from c) (requests w n)
                                  else requests w n)\<rparr>)"
  using assms
proof (induction ns arbitrary: w)
  case Nil
  then show ?case by simp
next
  case (Cons n ns)
  from Cons.prems obtain r where r: "n \<noteq> NULL" "requests w n = Some r"
    by (auto simp: request_at_None)
  let ?w1 = "w\<lparr>requests := (requests w)(n \<mapsto> clear_from c r)\<rparr>"
  have w1: "(if rq_from r = c then w\<lparr>requests := (requests w)(n \<mapsto> r\<lparr>rq_from := NULL\<rparr>)\<rparr> else w) = ?w1"
    using r(2) by (simp add: clear_from_def map_upd_triv)
  have live: "\<forall>m\<in>set ns. request_at ?w1 m \<noteq> None"
    using Cons.prems by (auto simp: request_at_None)
  have fn: "(\<lambda>m. if m \<in> set ns then map_option (clear_from c) (requests ?w1 m) else requests ?w1 m) =
            (\<lambda>m. if m \<in> set (n # ns) then map_option (clear_from c) (requests w m) else requests w m)"
    using r(2) by (auto simp: fun_eq_iff clear_from_idem)
  have "removeudpclientfromreplyq_loop (n # ns) c w = removeudpclientfromreplyq_loop ns c ?w1"
    using r w1 by (simp add: request_at_def)
  also have "\<dots> = Some (?w1\<lparr>requests := (\<lambda>m. if m \<in> set ns then map_option (clear_from c) (requests ?w1 m) else requests ?w1 m)\<rparr>)"
    by (rule Cons.IH [OF live])
  finally show ?case
    by (simp add: fn)
qed

text \<open>
  C4. When \<open>c\<close> is a live client with a live reply queue whose entries are live
  requests, \<open>removeudpclientfromreplyq(c)\<close> returns and changes nothing but the
  requests: the queue is the same list of entries; every queued request whose \<open>from\<close>
  pointed at \<open>c\<close> has \<open>from\<close> null and is otherwise the same, every other queued
  request is the same, and so is every request that is not queued.
\<close>

theorem removeudpclientfromreplyq_frame:
  assumes "client_at w c = Some cl" and "queue_at w (replyq cl) = Some q"
    and "\<forall>n\<in>set (entries q). request_at w n \<noteq> None"
  shows "\<exists>w'. removeudpclientfromreplyq c w = Some w' \<and>
           w' = w\<lparr>requests := requests w'\<rparr> \<and>
           queue_at w' (replyq cl) = Some q \<and>
           (\<forall>n\<in>set (entries q). \<exists>r. requests w n = Some r \<and>
               requests w' n = Some (if rq_from r = c then r\<lparr>rq_from := NULL\<rparr> else r)) \<and>
           (\<forall>n. n \<notin> set (entries q) \<longrightarrow> requests w' n = requests w n)"
proof -
  let ?w' = "w\<lparr>requests := (\<lambda>n. if n \<in> set (entries q) then map_option (clear_from c) (requests w n)
                                  else requests w n)\<rparr>"
  have run: "removeudpclientfromreplyq c w = Some ?w'"
    using assms(1,2) replyq_loop_result [OF assms(3), of c]
    by (simp add: removeudpclientfromreplyq_def)
  have q: "queue_at ?w' (replyq cl) = Some q"
    using assms(2) by (simp add: queue_at_Some)
  have inq: "\<forall>n\<in>set (entries q). \<exists>r. requests w n = Some r \<and>
               requests ?w' n = Some (if rq_from r = c then r\<lparr>rq_from := NULL\<rparr> else r)"
  proof
    fix n assume n: "n \<in> set (entries q)"
    then obtain r where "requests w n = Some r"
      using assms(3) by (auto simp: request_at_None)
    then show "\<exists>r. requests w n = Some r \<and>
               requests ?w' n = Some (if rq_from r = c then r\<lparr>rq_from := NULL\<rparr> else r)"
      using n by (simp add: clear_from_def)
  qed
  show ?thesis
    using run q inq by simp
qed


theorem removeudpclientfromreplyq_frame_witness:
  "\<exists>w'. removeudpclientfromreplyq 1 idle_world = Some w' \<and>
      queue_at w' 2 = Some \<lparr>entries = [5, 6]\<rparr> \<and>
      requests w' 5 = Some (request5\<lparr>rq_from := NULL\<rparr>) \<and>
      requests w' 6 = Some request6"
proof -
  let ?cl = "\<lparr>sock = 3, addr = Some peer5, expiry = 60, replyq = 2, conf = 4\<rparr>"
  let ?q = "\<lparr>entries = [5, 6]\<rparr>"
  have c: "client_at idle_world 1 = Some ?cl"
    by (simp add: client_at_def idle_world_def)
  have q: "queue_at idle_world (replyq ?cl) = Some ?q"
    by (simp add: queue_at_def idle_world_def)
  have l: "\<forall>n\<in>set (entries ?q). request_at idle_world n \<noteq> None"
    by (simp add: request_at_def idle_world_def)
  from removeudpclientfromreplyq_frame [OF c q l]
  obtain w' where run: "removeudpclientfromreplyq 1 idle_world = Some w'"
    and qq: "queue_at w' (replyq ?cl) = Some ?q"
    and inq: "\<forall>n\<in>set (entries ?q). \<exists>r. requests idle_world n = Some r \<and>
               requests w' n = Some (if rq_from r = 1 then r\<lparr>rq_from := NULL\<rparr> else r)"
    by blast
  have r5: "requests w' 5 = Some (request5\<lparr>rq_from := NULL\<rparr>)"
    using inq by (simp add: idle_world_def request5_def)
  have r6: "requests w' 6 = Some request6"
    using inq by (simp add: idle_world_def request6_def)
  show ?thesis
    using run qq r5 r6 by simp
qed

subsection \<open>The pass over the client list\<close>



lemma quiet_ticks: "quiet s src now found (w\<lparr>ticks := t\<rparr>) c = quiet s src now found w c"
  by (simp add: quiet_def client_at_def)















text \<open>
  C2. The claim: in the single pass every expired client of socket \<open>s\<close> with
  another address is removed, and the client whose address equals the source is
  refreshed and returned wherever it stands in the list. The code looks for the
  matching record in the same walk that expires records, and makes a new record when
  the walk set none; the \<open>break\<close> of line 224, behind the removal of an expired
  record, ends the walk before the records behind it were compared. Here the
  datagram comes from 10.0.0.6 at time 61, and the list holds the expired record 1
  (10.0.0.5, expiry 60) in front of the live record 7 (10.0.0.6, expiry 100): the walk
  removes record 1 and ends, \<open>*client\<close> stays null and the expiry of record 7 stays
  100; \<open>radudpget\<close> then makes the record 11 for 10.0.0.6 and returns it, so the list
  holds two records of the same peer. With the two records in the other order the
  same datagram is answered with record 7, refreshed.
\<close>

theorem radudpget_duplicate_client_record:
  "matches 3 peer6 idle_world 7 \<and>
   map_option (\<lambda>(found, w'). (found, map_option expiry (client_at w' 7)))
     (client_pass 3 peer6 [1, 7] NULL idle_world) = Some (NULL, Some 100) \<and>
   (\<exists>w'. radudpget_peer 3 True False peer6 4 idle_world = Some (PBreak 11 NULL w') \<and>
      map_option clients (conf_at w' 4) = Some [7, 11] \<and>
      map_option addr (client_at w' 7) = Some (Some peer6) \<and>
      map_option expiry (client_at w' 7) = Some 100 \<and>
      map_option addr (client_at w' 11) = Some (Some peer6) \<and>
      map_option expiry (client_at w' 11) = Some 121) \<and>
   map_option (\<lambda>(found, w'). (found, map_option expiry (client_at w' 7)))
     (client_pass 3 peer6 [7, 1] NULL idle_world) = Some (7, Some 121)"
proof -
  have A: "matches 3 peer6 idle_world 7"
    by (simp add: matches_def scenario_defs eval_defs)
  have B: "map_option (\<lambda>(found, w'). (found, map_option expiry (client_at w' 7)))
     (client_pass 3 peer6 [1, 7] NULL idle_world) = Some (NULL, Some 100)"
    by (simp add: scenario_defs eval_defs removeudpclientfromreplyq_def removelockedclient_def
        list_removedata_def)
  have C: "\<exists>w'. radudpget_peer 3 True False peer6 4 idle_world = Some (PBreak 11 NULL w') \<and>
      map_option clients (conf_at w' 4) = Some [7, 11] \<and>
      map_option addr (client_at w' 7) = Some (Some peer6) \<and>
      map_option expiry (client_at w' 7) = Some 100 \<and>
      map_option addr (client_at w' 11) = Some (Some peer6) \<and>
      map_option expiry (client_at w' 11) = Some 121"
    by (simp add: radudpget_peer_def radudpget_newclient_def addr_copy_def addclient_def
        addclientudp_def list_push_def malloc_def scenario_defs eval_defs
        removeudpclientfromreplyq_def removelockedclient_def list_removedata_def)
  have D: "map_option (\<lambda>(found, w'). (found, map_option expiry (client_at w' 7)))
     (client_pass 3 peer6 [7, 1] NULL idle_world) = Some (7, Some 121)"
    by (simp add: scenario_defs eval_defs removeudpclientfromreplyq_def removelockedclient_def
        list_removedata_def)
  show ?thesis
    using A B C D by blast
qed

subsection \<open>The identification of the peer\<close>







subsection \<open>Framing\<close>

lemma store_bytes_idem: "store_bytes bs (store_bytes bs old) = store_bytes bs old"
  by (simp add: store_bytes_def)

lemma recv_dgram_ok:
  assumes "sockq nt s = (src, payload) # rest" and "no_ioerr 1 nt"
  shows "recv_dgram peek trunc s n nt =
         (RecvOk (if trunc then int (length payload) else int (min n (length payload)))
            (take n payload) src,
          if peek then nt\<lparr>ioerrs := tl (ioerrs nt)\<rparr>
          else nt\<lparr>ioerrs := tl (ioerrs nt), sockq := (sockq nt)(s := rest)\<rparr>)"
  using assms
  by (cases "ioerrs nt") (auto simp: recv_dgram_def no_ioerr_def split: bool.splits)

lemma no_ioerr_2: "no_ioerr 2 nt \<Longrightarrow> no_ioerr 1 nt \<and> no_ioerr 1 (nt\<lparr>ioerrs := tl (ioerrs nt)\<rparr>)"
  by (cases "ioerrs nt"; cases "tl (ioerrs nt)") (auto simp: no_ioerr_def eval_nat_numeral)

text \<open>The \<open>free(*buf)\<close> at the top of a turn, for \<open>*buf\<close> null or a live buffer.\<close>

lemma frame_free:
  assumes "b = NULL \<or> bufs w b \<noteq> None"
  shows "(if b \<noteq> NULL then free_buf b w else Some w) =
         Some (if b = NULL then w else w\<lparr>bufs := (bufs w)(b := None)\<rparr>)"
  using assms by (auto simp: free_buf_def)

text \<open>A call with \<open>*buf\<close> neither null nor a live buffer has no defined result.\<close>

lemma radudpget_dangling_buf:
  assumes "b \<noteq> NULL" and "bufs w b = None"
  shows "radudpget E s wc ws b init nt w = None"
  using assms
  by (simp add: radudpget_def radudpget_loop.simps [of E s wc ws b init nt w]
      radudpget_frame_def free_buf_def)

lemma frame_invalid:
  assumes "sockq nt s = (src, payload) # rest" and "no_ioerr 2 nt"
    and "(if wc then find_clconf E src else find_srvconf E src) \<noteq> NULL"
    and "get_checked_rad_length E (store_bytes (take 4 payload) init) \<le> 0 \<or>
         4096 < get_checked_rad_length E (store_bytes (take 4 payload) init)"
    and "b = NULL \<or> bufs w b \<noteq> None"
  shows "radudpget_frame E s wc b init nt w =
         Some (FContinue NULL (store_bytes (take 4 payload) init)
           (nt\<lparr>ioerrs := tl (tl (ioerrs nt)), sockq := (sockq nt)(s := rest)\<rparr>)
           (if b = NULL then w else w\<lparr>bufs := (bufs w)(b := None)\<rparr>))"
proof -
  note io = no_ioerr_2 [OF assms(2)]
  have p: "recv_dgram True True s 4 nt =
      (RecvOk (int (length payload)) (take 4 payload) src, nt\<lparr>ioerrs := tl (ioerrs nt)\<rparr>)"
    using recv_dgram_ok [OF assms(1) conjunct1 [OF io], of True True 4] by simp
  have q1: "sockq (nt\<lparr>ioerrs := tl (ioerrs nt)\<rparr>) s = (src, payload) # rest"
    using assms(1) by simp
  have d: "drain s NULL (store_bytes (take 4 payload) init) (nt\<lparr>ioerrs := tl (ioerrs nt)\<rparr>) w' =
       FContinue NULL (store_bytes (take 4 payload) init)
           (nt\<lparr>ioerrs := tl (tl (ioerrs nt)), sockq := (sockq nt)(s := rest)\<rparr>) w'" for w'
    using recv_dgram_ok [OF q1 conjunct2 [OF io], of False False 4]
    by (simp add: drain_def store_bytes_idem)
  define w0 where "w0 = (if b = NULL then w else w\<lparr>bufs := (bufs w)(b := None)\<rparr>)"
  show ?thesis
    unfolding radudpget_frame_def frame_free [OF assms(5)]
    using assms(3,4)
    by (fold w0_def) (auto simp: p Let_def d)
qed

lemma frame_nomem:
  assumes "sockq nt s = (src, payload) # rest" and "no_ioerr 2 nt"
    and "(if wc then find_clconf E src else find_srvconf E src) \<noteq> NULL"
    and "0 < get_checked_rad_length E (store_bytes (take 4 payload) init)"
    and "get_checked_rad_length E (store_bytes (take 4 payload) init) \<le> 4096"
    and "\<not> allocs_ok 1 w"
    and "b = NULL \<or> bufs w b \<noteq> None"
  shows "radudpget_frame E s wc b init nt w =
         Some (FContinue NULL (store_bytes (take 4 payload) init)
           (nt\<lparr>ioerrs := tl (tl (ioerrs nt)), sockq := (sockq nt)(s := rest)\<rparr>)
           ((if b = NULL then w else w\<lparr>bufs := (bufs w)(b := None)\<rparr>)
              \<lparr>alloc_ok := tl (alloc_ok w)\<rparr>))"
proof -
  note io = no_ioerr_2 [OF assms(2)]
  have p: "recv_dgram True True s 4 nt =
      (RecvOk (int (length payload)) (take 4 payload) src, nt\<lparr>ioerrs := tl (ioerrs nt)\<rparr>)"
    using recv_dgram_ok [OF assms(1) conjunct1 [OF io], of True True 4] by simp
  have q1: "sockq (nt\<lparr>ioerrs := tl (ioerrs nt)\<rparr>) s = (src, payload) # rest"
    using assms(1) by simp
  have d: "drain s NULL (store_bytes (take 4 payload) init) (nt\<lparr>ioerrs := tl (ioerrs nt)\<rparr>) w' =
       FContinue NULL (store_bytes (take 4 payload) init)
           (nt\<lparr>ioerrs := tl (tl (ioerrs nt)), sockq := (sockq nt)(s := rest)\<rparr>) w'" for w'
    using recv_dgram_ok [OF q1 conjunct2 [OF io], of False False 4]
    by (simp add: drain_def store_bytes_idem)
  define w0 where "w0 = (if b = NULL then w else w\<lparr>bufs := (bufs w)(b := None)\<rparr>)"
  have a0: "alloc_ok w0 = alloc_ok w"
    by (simp add: w0_def)
  from assms(6) have "alloc_ok w = [] \<or> (\<exists>rest. alloc_ok w = False # rest)"
    unfolding allocs_ok_1 by (cases "alloc_ok w") auto
  then have m: "malloc w0 = (NULL, w0\<lparr>alloc_ok := tl (alloc_ok w)\<rparr>)"
    using a0 by (auto simp: malloc_def)
  show ?thesis
    unfolding radudpget_frame_def frame_free [OF assms(7)]
    using assms(3,4,5)
    by (fold w0_def) (simp add: p Let_def m d)
qed

lemma frame_valid:
  assumes "sockq nt s = (src, payload) # rest" and "no_ioerr 2 nt"
    and "(if wc then find_clconf E src else find_srvconf E src) = p" and "p \<noteq> NULL"
    and "get_checked_rad_length E (store_bytes (take 4 payload) init) = len"
    and "0 < len" and "len \<le> 4096" and "allocs_ok 1 w"
    and "b = NULL \<or> bufs w b \<noteq> None"
  shows "radudpget_frame E s wc b init nt w =
         (let nt' = nt\<lparr>ioerrs := tl (tl (ioerrs nt)), sockq := (sockq nt)(s := rest)\<rparr>;
              w0 = (if b = NULL then w else w\<lparr>bufs := (bufs w)(b := None)\<rparr>);
              w2 = w0\<lparr>alloc_ok := tl (alloc_ok w), brk := Suc (brk w),
                      bufs := (bufs w0)(Suc (brk w) \<mapsto> take (nat len) payload)\<rparr>
          in if int (length payload) < len
             then Some (FContinue (Suc (brk w)) (store_bytes (take 4 payload) init) nt' w2)
             else Some (FAccept len (Suc (brk w)) src p (store_bytes (take 4 payload) init) nt' w2))"
proof -
  note io = no_ioerr_2 [OF assms(2)]
  from assms(8) obtain ok where ok: "alloc_ok w = True # ok"
    unfolding allocs_ok_1 by blast
  have p: "recv_dgram True True s 4 nt =
      (RecvOk (int (length payload)) (take 4 payload) src, nt\<lparr>ioerrs := tl (ioerrs nt)\<rparr>)"
    using recv_dgram_ok [OF assms(1) conjunct1 [OF io], of True True 4] by simp
  have q1: "sockq (nt\<lparr>ioerrs := tl (ioerrs nt)\<rparr>) s = (src, payload) # rest"
    using assms(1) by simp
  have r: "recv_dgram False True s (nat len) (nt\<lparr>ioerrs := tl (ioerrs nt)\<rparr>) =
      (RecvOk (int (length payload)) (take (nat len) payload) src,
       nt\<lparr>ioerrs := tl (tl (ioerrs nt)), sockq := (sockq nt)(s := rest)\<rparr>)"
    using recv_dgram_ok [OF q1 conjunct2 [OF io], of False True "nat len"] by simp
  define w0 where "w0 = (if b = NULL then w else w\<lparr>bufs := (bufs w)(b := None)\<rparr>)"
  have a0: "alloc_ok w0 = True # ok" "brk w0 = brk w"
    using ok by (simp_all add: w0_def)
  have m: "malloc w0 = (Suc (brk w), w0\<lparr>alloc_ok := ok, brk := Suc (brk w)\<rparr>)"
    using a0 by (simp add: malloc_def)
  show ?thesis
    unfolding radudpget_frame_def frame_free [OF assms(9)]
    using assms(3-7) ok
    by (fold w0_def) (simp add: p Let_def m r)
qed

lemma replyq_loop_bufs:
  "removeudpclientfromreplyq_loop ns c w = Some w' \<Longrightarrow> bufs w' = bufs w"
proof (induction ns arbitrary: w)
  case Nil
  then show ?case by simp
next
  case (Cons n ns)
  from Cons.prems obtain r where
    "removeudpclientfromreplyq_loop ns c
       (if rq_from r = c then w\<lparr>requests := (requests w)(n \<mapsto> r\<lparr>rq_from := NULL\<rparr>)\<rparr> else w) = Some w'"
    by (auto split: Option.bind_splits)
  from Cons.IH [OF this] show ?case
    by (simp split: if_splits)
qed

lemma replyq_bufs: "removeudpclientfromreplyq c w = Some w' \<Longrightarrow> bufs w' = bufs w"
  by (auto simp: removeudpclientfromreplyq_def split: Option.bind_splits dest: replyq_loop_bufs)

lemma removelockedclient_bufs: "removelockedclient c w = Some w' \<Longrightarrow> bufs w' = bufs w"
  by (auto simp: removelockedclient_def split: Option.bind_splits)

lemma client_pass_bufs:
  "client_pass s src nodes found w = Some (f, w') \<Longrightarrow> bufs w' = bufs w"
proof (induction nodes arbitrary: found w)
  case Nil
  then show ?case by simp
next
  case (Cons c nodes)
  from Cons.prems obtain cl where cl: "client_at w c = Some cl"
    by (auto split: Option.bind_splits)
  show ?case
  proof (cases "s \<noteq> sock cl")
    case True
    then show ?thesis using Cons.prems cl Cons.IH [of found w] by simp
  next
    case False
    let ?now = "clock w (ticks w)"
    let ?w1 = "w\<lparr>ticks := Suc (ticks w)\<rparr>"
    from Cons.prems cl False obtain hit where
      hit: "(if found = NULL then do { a \<leftarrow> addr cl; addr_equal src a } else Some False) = Some hit"
      by (auto simp: gettimeofday_def split: Option.bind_splits)
    let ?cl1 = "if hit then cl\<lparr>expiry := ?now + 60\<rparr> else cl"
    let ?f1 = "if hit then c else found"
    let ?w2 = "?w1\<lparr>clientheap := (clientheap ?w1)(c \<mapsto> ?cl1)\<rparr>"
    have step: "client_pass s src (c # nodes) found w =
       (if expiry ?cl1 \<ge> ?now then client_pass s src nodes ?f1 ?w2
        else do {
              w3 \<leftarrow> removeudpclientfromreplyq c ?w2;
              w4 \<leftarrow> removelockedclient c
                     (w3\<lparr>clientheap := (clientheap w3)(c \<mapsto> ?cl1\<lparr>replyq := NULL\<rparr>)\<rparr>);
              Some (?f1, w4)
            })"
      using cl False hit by (simp add: gettimeofday_def Let_def del: bind_eq_Some_conv)
    show ?thesis
    proof (cases "expiry ?cl1 \<ge> ?now")
      case True
      then have "client_pass s src nodes ?f1 ?w2 = Some (f, w')"
        using Cons.prems step by simp
      from Cons.IH [OF this] show ?thesis by simp
    next
      case False
      then obtain w3 where w3: "removeudpclientfromreplyq c ?w2 = Some w3"
        and w4: "removelockedclient c
                     (w3\<lparr>clientheap := (clientheap w3)(c \<mapsto> ?cl1\<lparr>replyq := NULL\<rparr>)\<rparr>) = Some w'"
        using Cons.prems step by (auto split: Option.bind_splits)
      show ?thesis
        using replyq_bufs [OF w3] removelockedclient_bufs [OF w4] by simp
    qed
  qed
qed

lemma newclient_bufs:
  "radudpget_newclient s src p w = Some (PBreak c sv w') \<Longrightarrow> bufs w' = bufs w"
  by (auto simp: radudpget_newclient_def addr_copy_def addclient_def list_push_def malloc_def
      gettimeofday_def split: Option.bind_splits list.splits if_splits prod.splits)

lemma peer_bufs:
  "radudpget_peer s wc ws src p w = Some (PBreak c sv w') \<Longrightarrow> bufs w' = bufs w"
  by (auto simp: radudpget_peer_def split: Option.bind_splits if_splits
      dest!: client_pass_bufs newclient_bufs)

text \<open>The pass over the client list and the scrubbing it does allocate nothing.\<close>

lemma replyq_loop_alloc:
  "removeudpclientfromreplyq_loop ns c w = Some w' \<Longrightarrow> alloc_ok w' = alloc_ok w"
proof (induction ns arbitrary: w)
  case Nil
  then show ?case by simp
next
  case (Cons n ns)
  from Cons.prems obtain r where
    "removeudpclientfromreplyq_loop ns c
       (if rq_from r = c then w\<lparr>requests := (requests w)(n \<mapsto> r\<lparr>rq_from := NULL\<rparr>)\<rparr> else w) = Some w'"
    by (auto split: Option.bind_splits)
  from Cons.IH [OF this] show ?case
    by (simp split: if_splits)
qed

lemma replyq_alloc: "removeudpclientfromreplyq c w = Some w' \<Longrightarrow> alloc_ok w' = alloc_ok w"
  by (auto simp: removeudpclientfromreplyq_def split: Option.bind_splits dest: replyq_loop_alloc)

lemma removelockedclient_alloc: "removelockedclient c w = Some w' \<Longrightarrow> alloc_ok w' = alloc_ok w"
  by (auto simp: removelockedclient_def split: Option.bind_splits)

lemma client_pass_alloc:
  "client_pass s src nodes found w = Some (f, w') \<Longrightarrow> alloc_ok w' = alloc_ok w"
proof (induction nodes arbitrary: found w)
  case Nil
  then show ?case by simp
next
  case (Cons c nodes)
  from Cons.prems obtain cl where cl: "client_at w c = Some cl"
    by (auto split: Option.bind_splits)
  show ?case
  proof (cases "s \<noteq> sock cl")
    case True
    then show ?thesis using Cons.prems cl Cons.IH [of found w] by simp
  next
    case False
    let ?now = "clock w (ticks w)"
    let ?w1 = "w\<lparr>ticks := Suc (ticks w)\<rparr>"
    from Cons.prems cl False obtain hit where
      hit: "(if found = NULL then do { a \<leftarrow> addr cl; addr_equal src a } else Some False) = Some hit"
      by (auto simp: gettimeofday_def split: Option.bind_splits)
    let ?cl1 = "if hit then cl\<lparr>expiry := ?now + 60\<rparr> else cl"
    let ?f1 = "if hit then c else found"
    let ?w2 = "?w1\<lparr>clientheap := (clientheap ?w1)(c \<mapsto> ?cl1)\<rparr>"
    have step: "client_pass s src (c # nodes) found w =
       (if expiry ?cl1 \<ge> ?now then client_pass s src nodes ?f1 ?w2
        else do {
              w3 \<leftarrow> removeudpclientfromreplyq c ?w2;
              w4 \<leftarrow> removelockedclient c
                     (w3\<lparr>clientheap := (clientheap w3)(c \<mapsto> ?cl1\<lparr>replyq := NULL\<rparr>)\<rparr>);
              Some (?f1, w4)
            })"
      using cl False hit by (simp add: gettimeofday_def Let_def del: bind_eq_Some_conv)
    show ?thesis
    proof (cases "expiry ?cl1 \<ge> ?now")
      case True
      then have "client_pass s src nodes ?f1 ?w2 = Some (f, w')"
        using Cons.prems step by simp
      from Cons.IH [OF this] show ?thesis by simp
    next
      case False
      then obtain w3 where w3: "removeudpclientfromreplyq c ?w2 = Some w3"
        and w4: "removelockedclient c
                     (w3\<lparr>clientheap := (clientheap w3)(c \<mapsto> ?cl1\<lparr>replyq := NULL\<rparr>)\<rparr>) = Some w'"
        using Cons.prems step by (auto split: Option.bind_splits)
      show ?thesis
        using replyq_alloc [OF w3] removelockedclient_alloc [OF w4] by simp
    qed
  qed
qed

text \<open>
  The \<open>continue\<close>s of lines 230 and 236 are taken on the listener side only, and only
  when one of the three allocations for the new client record fails.
\<close>

lemma newclient_continue:
  "radudpget_newclient s src p w = Some (PContinue w') \<Longrightarrow> \<not> allocs_ok 3 w"
  by (auto simp: radudpget_newclient_def addr_copy_def addclient_def list_push_def malloc_def
      gettimeofday_def allocs_ok_def eval_nat_numeral
      split: Option.bind_splits list.splits if_splits prod.splits)

lemma peer_continue:
  assumes "radudpget_peer s wc ws src p w = Some (PContinue w')"
  shows "wc \<and> \<not> allocs_ok 3 w"
proof -
  from assms have wc: wc
    by (auto simp: radudpget_peer_def split: Option.bind_splits if_splits)
  with assms obtain cf :: clsrvconf and w1 where pass: "client_pass s src (clients cf) NULL w = Some (NULL, w1)"
    and new: "radudpget_newclient s src p w1 = Some (PContinue w')"
    by (auto simp: radudpget_peer_def split: Option.bind_splits if_splits)
  have "alloc_ok w1 = alloc_ok w"
    by (rule client_pass_alloc [OF pass])
  then show ?thesis
    using newclient_continue [OF new] wc by (simp add: allocs_ok_def)
qed

text \<open>One turn of the loop of \<open>radudpget\<close>, by the outcome of its first part.\<close>

lemma radudpget_continue:
  assumes "radudpget_frame E s wc b init nt w = Some (FContinue b1 init1 nt1 w1)"
  shows "radudpget E s wc ws b init nt w = radudpget E s wc ws b1 init1 nt1 w1"
  using assms by (simp add: radudpget_def radudpget_loop.simps [of E s wc ws b init nt w])

lemma radudpget_accept:
  assumes "radudpget_frame E s wc b init nt w = Some (FAccept len b1 src p init1 nt1 w1)"
  shows "radudpget E s wc ws b init nt w =
         (case radudpget_peer s wc ws src p w1 of
            None \<Rightarrow> None
          | Some (PContinue w2) \<Rightarrow> radudpget E s wc ws b1 init1 nt1 w2
          | Some (PBreak c sv w2) \<Rightarrow> Some (Returned len c sv b1 nt1 w2))"
  unfolding radudpget_def
  using assms by (simp add: radudpget_loop.simps [of E s wc ws b init nt w])

text \<open>With nothing queued on the socket the call waits in the first receive call.\<close>

lemma radudpget_blocks:
  assumes "sockq nt s = []" and "ioerrs nt = []" and "b = NULL \<or> bufs w b \<noteq> None"
  shows "radudpget E s wc ws b init nt w =
         Some (Blocked nt (if b = NULL then w else w\<lparr>bufs := (bufs w)(b := None)\<rparr>))"
proof -
  have "radudpget_frame E s wc b init nt w =
        Some (FBlock nt (if b = NULL then w else w\<lparr>bufs := (bufs w)(b := None)\<rparr>))"
    unfolding radudpget_frame_def frame_free [OF assms(3)]
    using assms(1,2) by (simp add: recv_dgram_def)
  then show ?thesis
    by (simp add: radudpget_def radudpget_loop.simps [of E s wc ws b init nt w])
qed

text \<open>
  C1. The claim: a datagram whose length field is not positive or above 4096 is
  drained and the loop goes on; otherwise, when at least the declared number of bytes
  arrive, \<open>radudpget\<close> returns the declared length and a fresh buffer with the
  first \<open>len\<close> bytes. It fails in the second part: between the length check and the
  return the code allocates, and on a failed allocation it takes the datagram off the
  socket and goes on to the next one. In the first run there is memory for the buffer
  and none for a client record (the datagram comes from 10.0.0.9, which has no record
  yet, at time 50, when no record is expired); in the second there is no memory for
  the buffer (the datagram comes from 10.0.0.5, which has a record). Both datagrams
  have the 38 bytes they declare; the call takes them off the socket and then waits
  for the next datagram, without returning.
\<close>

theorem radudpget_alloc_failure_counterexample:
  "get_checked_rad_length listener_env (take 4 access_request) = 38 \<and>
   length access_request = 38 \<and>
   (\<exists>nt w'. radudpget listener_env 3 True False NULL [0, 0, 0, 0]
               (listener_net [(peer9, access_request)])
               (idle_world\<lparr>alloc_ok := [True], clock := (\<lambda>n. 50)\<rparr>)
             = Some (Blocked nt w') \<and>
            sockq nt 3 = [] \<and> bufs w' 10 = None \<and>
            map_option clients (conf_at w' 4) = Some [1, 7]) \<and>
   radudpget listener_env 3 True False NULL [0, 0, 0, 0]
       (listener_net [(peer5, access_request)]) (idle_world\<lparr>alloc_ok := []\<rparr>)
     = Some (Blocked (listener_net []) (idle_world\<lparr>alloc_ok := []\<rparr>))"
proof -
  let ?E = listener_env
  let ?W = "idle_world\<lparr>alloc_ok := [True], clock := (\<lambda>n. 50)\<rparr>"
  let ?W2 = "?W\<lparr>alloc_ok := tl (alloc_ok ?W), brk := Suc (brk ?W),
       bufs := (bufs ?W)(Suc (brk ?W) \<mapsto> take (nat 38) access_request)\<rparr>"
  let ?V = "idle_world\<lparr>alloc_ok := []\<rparr>"
  have io: "no_ioerr 2 (listener_net ds)" for ds
    by (simp add: no_ioerr_def listener_net_def)
  have pr: "(if True then find_clconf ?E a else find_srvconf ?E a) = 4" for a
    by (simp add: listener_env_def)
  have nt: "(listener_net ((a, d) # []))\<lparr>ioerrs := tl (tl (ioerrs (listener_net ((a, d) # [])))),
           sockq := (sockq (listener_net ((a, d) # [])))(3 := [])\<rparr> = listener_net []" for a d
    by (simp add: listener_net_def fun_eq_iff)
  have q: "sockq (listener_net [(a, d)]) 3 = (a, d) # []" for a d
    by (simp add: listener_net_def)
  have e: "sockq (listener_net []) 3 = []" "ioerrs (listener_net []) = []"
    by (simp_all add: listener_net_def)
  have len: "get_checked_rad_length ?E (store_bytes (take 4 access_request) [0, 0, 0, 0]) = 38"
    by (simp add: listener_env_def store_bytes_def access_request_def)
  have len': "get_checked_rad_length ?E (take 4 access_request) = 38"
    by (simp add: listener_env_def access_request_def)
  have lg: "length access_request = 38"
    by (simp add: access_request_def)
  have p4: "(4::nat) \<noteq> NULL"
    by simp
  have a1: "allocs_ok 1 ?W"
    by (simp add: allocs_ok_def)
  have "radudpget_frame ?E 3 True NULL [0, 0, 0, 0] (listener_net [(peer9, access_request)]) ?W =
        Some (FAccept 38 (Suc (brk ?W)) peer9 4 (store_bytes (take 4 access_request) [0, 0, 0, 0])
                (listener_net []) ?W2)"
    using frame_valid [OF q io pr p4 len _ _ a1, of NULL peer9] lg
    by (simp add: Let_def nt)
  note acc = radudpget_accept [OF this, of False]
  have "\<exists>w3. radudpget_peer 3 True False peer9 4 ?W2 = Some (PContinue w3) \<and>
          bufs w3 10 \<noteq> None \<and> map_option clients (conf_at w3 4) = Some [1, 7]"
    by (simp add: radudpget_peer_def radudpget_newclient_def addr_copy_def malloc_def
        scenario_defs eval_defs)
  then obtain w3 where w3: "radudpget_peer 3 True False peer9 4 ?W2 = Some (PContinue w3)"
    and live: "bufs w3 10 \<noteq> None" and cl: "map_option clients (conf_at w3 4) = Some [1, 7]"
    by blast
  have b10: "Suc (brk ?W) = 10"
    by (simp add: idle_world_def)
  have "radudpget ?E 3 True False NULL [0, 0, 0, 0] (listener_net [(peer9, access_request)]) ?W =
        radudpget ?E 3 True False 10 (store_bytes (take 4 access_request) [0, 0, 0, 0])
          (listener_net []) w3"
    using acc w3 by (simp only: b10 option.case peer_result.case)
  also have "\<dots> = Some (Blocked (listener_net [])
                      (if 10 = NULL then w3 else w3\<lparr>bufs := (bufs w3)(10 := None)\<rparr>))"
    using live by (intro radudpget_blocks e) simp
  finally have A: "\<exists>nt w'. radudpget ?E 3 True False NULL [0, 0, 0, 0]
               (listener_net [(peer9, access_request)]) ?W = Some (Blocked nt w') \<and>
            sockq nt 3 = [] \<and> bufs w' 10 = None \<and>
            map_option clients (conf_at w' 4) = Some [1, 7]"
    using cl e by (simp add: conf_at_def)
  have a0: "\<not> allocs_ok 1 ?V"
    by (simp add: allocs_ok_def)
  have pn: "(if True then find_clconf ?E peer5 else find_srvconf ?E peer5) \<noteq> NULL"
    by (simp add: listener_env_def)
  have l1: "0 < get_checked_rad_length ?E (store_bytes (take 4 access_request) [0, 0, 0, 0])"
    and l2: "get_checked_rad_length ?E (store_bytes (take 4 access_request) [0, 0, 0, 0]) \<le> 4096"
    by (simp_all add: len)
  have nb: "NULL = NULL \<or> bufs ?V NULL \<noteq> None"
    by simp
  have "radudpget_frame ?E 3 True NULL [0, 0, 0, 0] (listener_net [(peer5, access_request)]) ?V =
        Some (FContinue NULL (store_bytes (take 4 access_request) [0, 0, 0, 0]) (listener_net []) ?V)"
    using frame_nomem [OF q io pn l1 l2 a0 nb] by (simp add: nt)
  from radudpget_continue [OF this, of False]
  have B: "radudpget ?E 3 True False NULL [0, 0, 0, 0] (listener_net [(peer5, access_request)]) ?V =
        Some (Blocked (listener_net []) ?V)"
    using radudpget_blocks [OF e, of NULL ?V ?E True False] by simp
  show ?thesis
    using A B len' lg by blast
qed

text \<open>
  C1, amended. For a datagram at the head of the queue of socket \<open>s\<close>, from a
  source with a configuration, when the two receive calls made for it do not fail and
  \<open>*buf\<close> is null or a live buffer (which the turn frees first); \<open>len\<close> is
  \<open>get_checked_rad_length\<close> of the peeked prefix. If \<open>len \<le> 0\<close> or \<open>len > 4096\<close>
  the datagram is taken off the queue, nothing is allocated and the loop goes on with
  \<open>*buf\<close> null. Otherwise: if the buffer cannot be allocated, the datagram is taken
  off the queue and the loop goes on with \<open>*buf\<close> null. If it can, and the datagram
  is shorter than \<open>len\<close>, the datagram is taken off the queue and the loop goes on
  (the buffer is freed at the top of the next turn). If it can, and the datagram has
  at least \<open>len\<close> bytes, the peer is identified, with three outcomes: when a client
  or server is set, \<open>radudpget\<close> returns \<open>len\<close> and the buffer allocated in this
  turn, which holds the first \<open>len\<close> bytes of the datagram and no more; when the
  new client record cannot be made (on the listener side only, and only when one of
  the three allocations behind the buffer's fails) the loop goes on, and the buffer is
  freed at the top of the next turn; when the client list is corrupt there is no
  result. On the upstream side the peer is always identified.
\<close>

theorem radudpget_framing:
  assumes "sockq nt s = (src, payload) # rest" and "no_ioerr 2 nt"
    and "(if wc then find_clconf E src else find_srvconf E src) = p" and "p \<noteq> NULL"
    and "b = NULL \<or> bufs w b \<noteq> None"
    and "hdr = store_bytes (take 4 payload) init"
    and "len = get_checked_rad_length E hdr"
    and "nt' = nt\<lparr>ioerrs := tl (tl (ioerrs nt)), sockq := (sockq nt)(s := rest)\<rparr>"
    and "w0 = (if b = NULL then w else w\<lparr>bufs := (bufs w)(b := None)\<rparr>)"
    and "w2 = w0\<lparr>alloc_ok := tl (alloc_ok w), brk := Suc (brk w),
                  bufs := (bufs w0)(Suc (brk w) \<mapsto> take (nat len) payload)\<rparr>"
  shows "(len \<le> 0 \<or> 4096 < len \<longrightarrow>
            radudpget E s wc ws b init nt w = radudpget E s wc ws NULL hdr nt' w0) \<and>
         (0 < len \<and> len \<le> 4096 \<and> \<not> allocs_ok 1 w \<longrightarrow>
            radudpget E s wc ws b init nt w =
            radudpget E s wc ws NULL hdr nt' (w0\<lparr>alloc_ok := tl (alloc_ok w)\<rparr>)) \<and>
         (0 < len \<and> len \<le> 4096 \<and> allocs_ok 1 w \<and> int (length payload) < len \<longrightarrow>
            radudpget E s wc ws b init nt w = radudpget E s wc ws (Suc (brk w)) hdr nt' w2) \<and>
         (0 < len \<and> len \<le> 4096 \<and> allocs_ok 1 w \<and> len \<le> int (length payload) \<longrightarrow>
            (\<forall>c sv w3. radudpget_peer s wc ws src p w2 = Some (PBreak c sv w3) \<longrightarrow>
               radudpget E s wc ws b init nt w = Some (Returned len c sv (Suc (brk w)) nt' w3) \<and>
               bufs w3 (Suc (brk w)) = Some (take (nat len) payload) \<and>
               length (take (nat len) payload) = nat len) \<and>
            (\<forall>w3. radudpget_peer s wc ws src p w2 = Some (PContinue w3) \<longrightarrow>
               wc \<and> \<not> allocs_ok 4 w \<and>
               radudpget E s wc ws b init nt w = radudpget E s wc ws (Suc (brk w)) hdr nt' w3) \<and>
            (radudpget_peer s wc ws src p w2 = None \<longrightarrow>
               radudpget E s wc ws b init nt w = None) \<and>
            (\<not> wc \<and> ws \<longrightarrow> (\<forall>cf. conf_at w p = Some cf \<longrightarrow>
               radudpget E s wc ws b init nt w =
               Some (Returned len NULL (servers cf) (Suc (brk w)) nt' w2))))"
proof (intro conjI impI allI)
  assume "len \<le> 0 \<or> 4096 < len"
  then have "radudpget_frame E s wc b init nt w = Some (FContinue NULL hdr nt' w0)"
    using frame_invalid [OF assms(1,2) _ _ assms(5), of wc E init] assms(3,4,6-9) by simp
  then show "radudpget E s wc ws b init nt w = radudpget E s wc ws NULL hdr nt' w0"
    by (rule radudpget_continue)
next
  assume "0 < len \<and> len \<le> 4096 \<and> \<not> allocs_ok 1 w"
  then have "radudpget_frame E s wc b init nt w =
             Some (FContinue NULL hdr nt' (w0\<lparr>alloc_ok := tl (alloc_ok w)\<rparr>))"
    using frame_nomem [OF assms(1,2) _ _ _ _ assms(5), of wc E init] assms(3,4,6-9) by simp
  then show "radudpget E s wc ws b init nt w =
             radudpget E s wc ws NULL hdr nt' (w0\<lparr>alloc_ok := tl (alloc_ok w)\<rparr>)"
    by (rule radudpget_continue)
next
  assume a: "0 < len \<and> len \<le> 4096 \<and> allocs_ok 1 w \<and> int (length payload) < len"
  then have "radudpget_frame E s wc b init nt w = Some (FContinue (Suc (brk w)) hdr nt' w2)"
    using frame_valid [OF assms(1,2,3,4) _ _ _ _ assms(5), of init len] assms(6-10)
    by (simp add: Let_def)
  then show "radudpget E s wc ws b init nt w = radudpget E s wc ws (Suc (brk w)) hdr nt' w2"
    by (rule radudpget_continue)
next
  fix c sv w3
  assume a: "0 < len \<and> len \<le> 4096 \<and> allocs_ok 1 w \<and> len \<le> int (length payload)"
    and pr: "radudpget_peer s wc ws src p w2 = Some (PBreak c sv w3)"
  have "radudpget_frame E s wc b init nt w = Some (FAccept len (Suc (brk w)) src p hdr nt' w2)"
    using a frame_valid [OF assms(1,2,3,4) _ _ _ _ assms(5), of init len] assms(6-10)
    by (simp add: Let_def)
  from radudpget_accept [OF this, of ws]
  show "radudpget E s wc ws b init nt w = Some (Returned len c sv (Suc (brk w)) nt' w3)"
    using pr by simp
  show "bufs w3 (Suc (brk w)) = Some (take (nat len) payload)"
    using peer_bufs [OF pr] assms(10) by simp
  show "length (take (nat len) payload) = nat len"
    using a by (simp add: min_def) linarith
next
  fix w3
  assume a: "0 < len \<and> len \<le> 4096 \<and> allocs_ok 1 w \<and> len \<le> int (length payload)"
    and pr: "radudpget_peer s wc ws src p w2 = Some (PContinue w3)"
  have "radudpget_frame E s wc b init nt w = Some (FAccept len (Suc (brk w)) src p hdr nt' w2)"
    using a frame_valid [OF assms(1,2,3,4) _ _ _ _ assms(5), of init len] assms(6-10)
    by (simp add: Let_def)
  from radudpget_accept [OF this, of ws]
  show "radudpget E s wc ws b init nt w = radudpget E s wc ws (Suc (brk w)) hdr nt' w3"
    using pr by simp
  from peer_continue [OF pr] show wc
    by simp
  from a obtain ok where ok: "alloc_ok w = True # ok"
    unfolding allocs_ok_1 by blast
  have "alloc_ok w2 = ok"
    using ok assms(10) by simp
  then have "allocs_ok 3 w2 = allocs_ok 4 w"
    using ok by (simp add: allocs_ok_def eval_nat_numeral)
  then show "\<not> allocs_ok 4 w"
    using peer_continue [OF pr] by simp
next
  assume a: "0 < len \<and> len \<le> 4096 \<and> allocs_ok 1 w \<and> len \<le> int (length payload)"
    and pr: "radudpget_peer s wc ws src p w2 = None"
  have "radudpget_frame E s wc b init nt w = Some (FAccept len (Suc (brk w)) src p hdr nt' w2)"
    using a frame_valid [OF assms(1,2,3,4) _ _ _ _ assms(5), of init len] assms(6-10)
    by (simp add: Let_def)
  from radudpget_accept [OF this, of ws]
  show "radudpget E s wc ws b init nt w = None"
    using pr by simp
next
  fix cf
  assume a: "0 < len \<and> len \<le> 4096 \<and> allocs_ok 1 w \<and> len \<le> int (length payload)"
    and up: "\<not> wc \<and> ws" and cf: "conf_at w p = Some cf"
  have fr: "radudpget_frame E s wc b init nt w = Some (FAccept len (Suc (brk w)) src p hdr nt' w2)"
    using a frame_valid [OF assms(1,2,3,4) _ _ _ _ assms(5), of init len] assms(6-10)
    by (simp add: Let_def)
  have "conf_at w2 p = Some cf"
    using cf assms(9,10) by (simp add: conf_at_Some)
  then have "radudpget_peer s wc ws src p w2 = Some (PBreak NULL (servers cf) w2)"
    using up by (simp add: radudpget_peer_def)
  then show "radudpget E s wc ws b init nt w = Some (Returned len NULL (servers cf) (Suc (brk w)) nt' w2)"
    using radudpget_accept [OF fr, of ws] by simp
qed

theorem radudpget_framing_witness:
  "(\<exists>w3. radudpget listener_env 3 True False NULL [0, 0, 0, 0]
            (listener_net [(peer5, access_request)]) idle_world
          = Some (Returned 38 1 NULL 10 (listener_net []) w3) \<and>
          bufs w3 10 = Some access_request) \<and>
   radudpget listener_env 3 True False NULL [0, 0, 0, 0]
            (listener_net [(peer5, oversize_request)]) idle_world
     = Some (Blocked (listener_net []) idle_world)"
proof -
  let ?E = listener_env
  let ?w2 = "idle_world\<lparr>alloc_ok := tl (alloc_ok idle_world), brk := Suc (brk idle_world),
       bufs := (bufs idle_world)(Suc (brk idle_world) \<mapsto> take (nat 38) access_request)\<rparr>"
  have io: "no_ioerr 2 (listener_net ds)" for ds
    by (simp add: no_ioerr_def listener_net_def)
  have pr: "(if True then find_clconf ?E peer5 else find_srvconf ?E peer5) = 4"
    by (simp add: listener_env_def)
  have nt: "listener_net []
      = (listener_net ((peer5, d) # []))\<lparr>ioerrs := tl (tl (ioerrs (listener_net ((peer5, d) # [])))),
           sockq := (sockq (listener_net ((peer5, d) # [])))(3 := [])\<rparr>" for d
    by (simp add: listener_net_def fun_eq_iff)
  have q: "sockq (listener_net [(peer5, d)]) 3 = (peer5, d) # []" for d
    by (simp add: listener_net_def)
  have e: "sockq (listener_net []) 3 = []" "ioerrs (listener_net []) = []"
    by (simp_all add: listener_net_def)
  have nb: "NULL = NULL \<or> bufs idle_world NULL \<noteq> None"
    by simp
  have w0: "idle_world = (if NULL = NULL then idle_world
                          else idle_world\<lparr>bufs := (bufs idle_world)(NULL := None)\<rparr>)"
    by simp
  have len1: "38 = get_checked_rad_length ?E (store_bytes (take 4 access_request) [0, 0, 0, 0])"
    by (simp add: listener_env_def store_bytes_def access_request_def)
  have len2: "5000 = get_checked_rad_length ?E (store_bytes (take 4 oversize_request) [0, 0, 0, 0])"
    by (simp add: listener_env_def store_bytes_def oversize_request_def)
  have a1: "allocs_ok 1 idle_world"
    by (simp add: allocs_ok_def idle_world_def)
  have long: "38 \<le> int (length access_request)"
    by (simp add: access_request_def)
  have tk: "take (nat 38) access_request = access_request"
    by (simp add: access_request_def)
  have "\<exists>w3. radudpget_peer 3 True False peer5 4 ?w2 = Some (PBreak 1 NULL w3)"
    by (simp add: radudpget_peer_def scenario_defs eval_defs)
  then obtain w3 where w3: "radudpget_peer 3 True False peer5 4 ?w2 = Some (PBreak 1 NULL w3)"
    by blast
  have b10: "Suc (brk idle_world) = 10"
    by (simp add: idle_world_def)
  have ok: "0 < (38::int) \<and> (38::int) \<le> 4096 \<and> allocs_ok 1 idle_world \<and>
            38 \<le> int (length access_request)"
    using a1 long by simp
  have p4: "(4::nat) \<noteq> NULL"
    by simp
  from radudpget_framing [OF q io pr p4 nb refl len1 nt w0 refl, of False] ok w3
  have "radudpget ?E 3 True False NULL [0, 0, 0, 0] (listener_net [(peer5, access_request)]) idle_world
          = Some (Returned 38 1 NULL (Suc (brk idle_world)) (listener_net []) w3) \<and>
          bufs w3 (Suc (brk idle_world)) = Some (take (nat 38) access_request)"
    by blast
  then have A: "radudpget ?E 3 True False NULL [0, 0, 0, 0] (listener_net [(peer5, access_request)]) idle_world
          = Some (Returned 38 1 NULL 10 (listener_net []) w3) \<and>
          bufs w3 10 = Some access_request"
    by (simp only: b10 tk)
  have blocked: "radudpget ?E 3 True False NULL hdr (listener_net []) idle_world
        = Some (Blocked (listener_net []) idle_world)" for hdr
    using radudpget_blocks [OF e nb, of ?E True False hdr] by simp
  have B: "radudpget ?E 3 True False NULL [0, 0, 0, 0] (listener_net [(peer5, oversize_request)]) idle_world
     = Some (Blocked (listener_net []) idle_world)"
    using radudpget_framing [OF q io pr p4 nb refl len2 nt w0 refl, of False]
    by (simp add: blocked)
  show ?thesis
    using A B by blast
qed

subsection \<open>The outbound socket pool\<close>

text \<open>
  C6. The claim: the server's socket comes from the first candidate that matches a
  pool entry or binds a fresh socket, and the candidate loop ends there. The
  \<open>break\<close> after the reuse of a pool entry leaves the inner loop only; the candidate
  loop goes on, and a later candidate that matches another pool entry replaces the
  socket. Here the two candidates 192.0.2.1 and 192.0.2.2 are both in the pool, with
  the sockets 3 and 4: the server ends with socket 4, the second candidate's.
\<close>

theorem addserverextraudp_last_match:
  "(let a1 = \<lparr>ai_family = AF_INET,
               ai_addr = [2, 0, 0, 0, 192, 0, 2, 1, 0, 0, 0, 0, 0, 0, 0, 0], ai_addrlen = 16\<rparr>;
        a2 = \<lparr>ai_family = AF_INET,
               ai_addr = [2, 0, 0, 0, 192, 0, 2, 2, 0, 0, 0, 0, 0, 0, 0, 0], ai_addrlen = 16\<rparr>;
        st = \<lparr>alloc_ok = [], brk = 0,
               pool = Some [\<lparr>source = ai_addr a1 @ replicate 112 0, socket = 3\<rparr>,
                            \<lparr>source = ai_addr a2 @ replicate 112 0, socket = 4\<rparr>],
               srcres = [], fresh = replicate 128 0\<rparr>
    in addserverextraudp (\<lambda>name. [a1, a2]) (\<lambda>ai. 5) (Some AF_INET) (Some ''source'') (- 1) st
       = Some (Ran (4, st)))"
  by (simp add: addserverextraudp_def memcmp_def Let_def)

end
